theory Spec2Isabelle
  imports Complex_Main
begin

section \<open>Time: naive datetimes and timedeltas\<close>

text \<open>
  The camera works on naive \<^verbatim>\<open>datetime\<close> values and \<^verbatim>\<open>timedelta\<close> differences, both of
  microsecond resolution. A \<^verbatim>\<open>timedelta\<close> is its number of microseconds; a \<^verbatim>\<open>datetime\<close> is
  the number of microseconds since \<^verbatim>\<open>datetime.min\<close>. Addition, subtraction and comparison
  are those of the integers, and \<^verbatim>\<open>%\<close> on timedeltas is Python's floor modulo (the sign of
  the divisor), which is \<open>mod\<close> on \<open>int\<close>. Python confines \<^verbatim>\<open>datetime\<close> to the years 1 to
  9999 and raises OverflowError beyond them; the counts here are not bounded, so the
  statements below are about clock readings whose 50-minute window lies inside that range.
\<close>

type_synonym timedelta = int
type_synonym datetime = int

definition datetime_min :: datetime where
  "datetime_min = 0"

definition minutes :: "int \<Rightarrow> timedelta" where
  "minutes n = n * 60000000"

text \<open>
  Exceptions of the Python run-time and of the libraries, as values. \<open>OtherException\<close>
  stands for any other class derived from \<^verbatim>\<open>Exception\<close>. \<^verbatim>\<open>asyncio.CancelledError\<close>, which
  the awaited GET raises when the host cancels the call (it does so when the image takes
  too long), derives from \<^verbatim>\<open>BaseException\<close> only, and \<open>OtherBaseException\<close> stands for any
  other such class. \<open>is_Exception\<close> is \<^verbatim>\<open>isinstance(e, Exception)\<close>, which is what the clause
  \<^verbatim>\<open>except Exception\<close> tests.
\<close>

datatype exn =
    ZeroDivisionError
  | IndexError
  | AttributeError
  | OSError
  | TimeoutException
  | HTTPStatusError
  | RequestError
  | UnidentifiedImageError
  | OtherException string
  | CancelledError
  | OtherBaseException string

fun is_Exception :: "exn \<Rightarrow> bool" where
  "is_Exception CancelledError = False"
| "is_Exception (OtherBaseException c) = False"
| "is_Exception e = True"

text \<open>
  \<^verbatim>\<open>def ceil_dt(dt, delta): return dt + (datetime.min - dt) % delta\<close>

  A zero \<^verbatim>\<open>delta\<close> raises ZeroDivisionError in Python.
\<close>

definition ceil_dt :: "datetime \<Rightarrow> timedelta \<Rightarrow> exn + datetime" where
  "ceil_dt dt delta =
     (if delta = 0 then Inl ZeroDivisionError
      else Inr (dt + (datetime_min - dt) mod delta))"

text \<open>\<^verbatim>\<open>td = timedelta(minutes = 5)\<close>\<close>

definition td :: timedelta where
  "td = minutes 5"

section \<open>The libraries and the host, as parameters\<close>

text \<open>
  The camera calls into httpx, PIL and Home Assistant, and reads constants of
  \<^verbatim>\<open>const.py\<close>; none of them is part of the camera's source. They are the fields of a
  record \<open>lib\<close>, over an arbitrary type \<open>'img\<close> of PIL images:
  \<^item> \<open>url_prefix\<close>, \<open>url_suffix\<close>: RAIN_MAP_URL_PREFIX and RAIN_MAP_URL_SUFFIX;
  \<^item> \<open>sg_stamp t\<close>: \<^verbatim>\<open>t.astimezone(_SG_TZ).strftime('%Y%m%d%H%M')\<close>;
  \<^item> \<open>isoformat t\<close>: \<^verbatim>\<open>t.isoformat()\<close>;
  \<^item> \<open>image_open b\<close>: \<^verbatim>\<open>Image.open(io.BytesIO(b))\<close>, which raises on bytes that are no image;
  \<^item> \<open>im_size\<close>: \<^verbatim>\<open>frame.size\<close>, the pair of width and height;
  \<^item> \<open>draw_line frame xy fill width\<close>: the frame after
    \<^verbatim>\<open>ImageDraw.Draw(frame).line(xy, fill=fill, width=width)\<close>, or the exception of either
    call: \<^verbatim>\<open>Image.open\<close> reads the header only, and \<^verbatim>\<open>ImageDraw.Draw\<close> loads the pixels,
    which fails on a truncated file;
  \<^item> \<open>save_gif f fs\<close>: the bytes written by \<^verbatim>\<open>f.save(buff, format='GIF', save_all=True,
    append_images=fs, optimize=False, duration=1000, disposal=2, loop=0)\<close>, or the
    exception it raises.
  Python computes the progress of a frame and the end of its bar in floating point; here
  they are rational numbers. Formatting a timestamp and reading the size of an opened
  image are taken to succeed.
\<close>

type_synonym bytes = string

record 'img lib =
  url_prefix :: string
  url_suffix :: string
  sg_stamp :: "datetime \<Rightarrow> string"
  isoformat :: "datetime \<Rightarrow> string"
  image_open :: "bytes \<Rightarrow> exn + 'img"
  im_size :: "'img \<Rightarrow> nat \<times> nat"
  draw_line :: "'img \<Rightarrow> rat \<times> rat \<times> rat \<times> rat \<Rightarrow> string \<Rightarrow> nat \<Rightarrow> exn + 'img"
  save_gif :: "'img \<Rightarrow> 'img list \<Rightarrow> exn + bytes"

text \<open>
  What one call of the camera meets: the reading of \<^verbatim>\<open>datetime.now()\<close>, what
  \<^verbatim>\<open>async_client.get(url, headers=RAIN_MAP_HEADERS)\<close> does for each URL (a response with
  its status code and body, or an exception, which stands for one raised by
  \<^verbatim>\<open>get_async_client\<close> as well), and the state machine of the host, where
  \<^verbatim>\<open>hass.states.get\<close> returns \<^verbatim>\<open>None\<close> for an entity it has no state of.
\<close>

datatype http_result = Response nat bytes | Raises exn

record hass_state =
  state :: string
  attributes :: "string \<rightharpoonup> string"

type_synonym state_machine = "string \<rightharpoonup> hass_state"

record world =
  clock :: datetime
  http_get :: "string \<Rightarrow> http_result"
  states :: state_machine

section \<open>The camera entity\<close>

text \<open>
  The fields of \<^verbatim>\<open>NeaRainCamera\<close> that its image and attribute accessors read or write,
  without the leading underscore of the source.
\<close>

record NeaRainCamera =
  name :: string
  prefix :: string
  entity_id :: string
  last_image_time :: "datetime option"
  last_image_time_pretty :: "string option"
  last_image :: "bytes option"
  last_url :: "string option"
  last_state :: "string option"
  last_attributes :: "(string \<rightharpoonup> string) option"
  updated_attributes :: "(string \<rightharpoonup> string) option"

text \<open>\<^verbatim>\<open>str.lower\<close> and \<^verbatim>\<open>str.replace(" ", "_")\<close>, on ASCII text.\<close>

definition lower_char :: "char \<Rightarrow> char" where
  "lower_char c =
     (let n = (of_char c :: nat) in if 65 \<le> n \<and> n \<le> 90 then char_of (n + 32) else c)"

definition lower :: "string \<Rightarrow> string" where
  "lower s = map lower_char s"

definition replace_space :: "string \<Rightarrow> string" where
  "replace_space s = map (\<lambda>c. if c = CHR '' '' then CHR ''_'' else c) s"

text \<open>\<^verbatim>\<open>__init__\<close>, from the name and the prefix of the configuration.\<close>

definition init :: "string \<Rightarrow> string \<Rightarrow> NeaRainCamera" where
  "init conf_name conf_prefix =
     \<lparr> name = conf_name @ '' Rain Map'',
       prefix = conf_prefix,
       entity_id = replace_space (lower (''camera'' @ ''.'' @ conf_prefix @ ''_rain_map'')),
       last_image_time = None,
       last_image_time_pretty = None,
       last_image = None,
       last_url = None,
       last_state = None,
       last_attributes = None,
       updated_attributes = None \<rparr>"

text \<open>The property \<^verbatim>\<open>extra_state_attributes\<close>: a dict of two keys.\<close>

definition extra_state_attributes :: "NeaRainCamera \<Rightarrow> (string \<rightharpoonup> string option)" where
  "extra_state_attributes self =
     [''Updated at'' \<mapsto> last_image_time_pretty self, ''URL'' \<mapsto> last_url self]"

section \<open>Fetching one image\<close>

text \<open>
  The URL of a bucket, as \<^verbatim>\<open>get_image\<close> and the full-success branch build it.
\<close>

definition rain_map_url :: "'img lib \<Rightarrow> datetime \<Rightarrow> string" where
  "rain_map_url p timestamp = url_prefix p @ sg_stamp p timestamp @ url_suffix p"

text \<open>
  The body of the \<^verbatim>\<open>try\<close> in \<^verbatim>\<open>get_image\<close>: the GET, then \<^verbatim>\<open>raise_for_status\<close>, which
  raises HTTPStatusError unless the status is 2xx, then the content of the response.
\<close>

definition try_get :: "world \<Rightarrow> string \<Rightarrow> exn + bytes" where
  "try_get w url =
     (case http_get w url of
        Raises e \<Rightarrow> Inl e
      | Response status content \<Rightarrow>
          if 200 \<le> status \<and> status \<le> 299 then Inr content else Inl HTTPStatusError)"

text \<open>
  \<^verbatim>\<open>get_image\<close>: the three \<^verbatim>\<open>except\<close> clauses in their order, each ending in a bare
  \<^verbatim>\<open>return\<close>. The last one catches \<^verbatim>\<open>Exception\<close>; an exception that is not one leaves
  \<^verbatim>\<open>get_image\<close>.
\<close>

definition get_image :: "'img lib \<Rightarrow> world \<Rightarrow> datetime \<Rightarrow> exn + bytes option" where
  "get_image p w timestamp =
     (let url = rain_map_url p timestamp in
      case try_get w url of
        Inr content \<Rightarrow> Inr (Some content)
      | Inl TimeoutException \<Rightarrow> Inr None
      | Inl HTTPStatusError \<Rightarrow> Inr None
      | Inl RequestError \<Rightarrow> Inr None
      | Inl e \<Rightarrow> if is_Exception e then Inr None else Inl e)"

text \<open>
  \<^verbatim>\<open>asyncio.gather\<close>: the results in the order of the awaitables, or the exception of
  one that raised.
\<close>

fun gather :: "(exn + 'a) list \<Rightarrow> exn + 'a list" where
  "gather [] = Inr []"
| "gather (r # rs) =
     (case r of
        Inl e \<Rightarrow> Inl e
      | Inr v \<Rightarrow> (case gather rs of Inl e \<Rightarrow> Inl e | Inr vs \<Rightarrow> Inr (v # vs)))"

section \<open>The image of the camera\<close>

text \<open>
  \<^verbatim>\<open>while start < now: timestamps.append(start); start = start + td\<close>
\<close>

function timestamps_loop :: "datetime \<Rightarrow> datetime \<Rightarrow> datetime list \<Rightarrow> datetime list" where
  "timestamps_loop start now timestamps =
     (if start < now then timestamps_loop (start + td) now (timestamps @ [start])
      else timestamps)"
  by pat_completeness auto
termination
  by (relation "measure (\<lambda>(start, now, timestamps). nat (now - start))")
     (auto simp: td_def minutes_def)

declare timestamps_loop.simps [simp del]

text \<open>
  \<^verbatim>\<open>for content in contents\<close>: a content that is not \<^verbatim>\<open>None\<close> is stored as the last
  image first and opened next; an exception of \<^verbatim>\<open>Image.open\<close> leaves the loop and the
  call, with the camera as it is then.
\<close>

fun images_loop ::
  "'img lib \<Rightarrow> bytes option list \<Rightarrow> NeaRainCamera \<Rightarrow> 'img list \<Rightarrow> (exn + 'img list) \<times> NeaRainCamera"
where
  "images_loop p [] self images = (Inr images, self)"
| "images_loop p (None # contents) self images = images_loop p contents self images"
| "images_loop p (Some content # contents) self images =
     (let self' = self\<lparr>last_image := Some content\<rparr> in
      case image_open p content of
        Inl e \<Rightarrow> (Inl e, self')
      | Inr img \<Rightarrow> images_loop p contents self' (images @ [img]))"

text \<open>
  \<^verbatim>\<open>for idx, frame in enumerate(images)\<close>, with \<open>n\<close> for \<^verbatim>\<open>len(images)\<close>, which is at least
  2 where the loop runs. An exception of \<^verbatim>\<open>ImageDraw.Draw\<close> or \<^verbatim>\<open>draw.line\<close> leaves the
  loop and the call.
\<close>

definition progress :: "nat \<Rightarrow> nat \<Rightarrow> rat" where
  "progress idx n = of_nat idx / (of_nat n - 1)"

fun frames_loop ::
  "'img lib \<Rightarrow> nat \<Rightarrow> (nat \<times> 'img) list \<Rightarrow> 'img list \<Rightarrow> exn + 'img list"
where
  "frames_loop p n [] frames = Inr frames"
| "frames_loop p n ((idx, frame) # rest) frames =
     (let (w, h) = im_size p frame in
      case draw_line p frame (0, 0, progress idx n * of_nat w, 0) ''gray'' 3 of
        Inl e \<Rightarrow> Inl e
      | Inr frame' \<Rightarrow> frames_loop p n rest (frames @ [frame']))"

text \<open>
  Lines 157 to 165: the loop that draws the bars, then \<^verbatim>\<open>frames[0].save(buff, ...,
  append_images=frames[1:], ...)\<close>; the value is \<^verbatim>\<open>buff.getvalue()\<close>, or the exception that
  a draw or the save raised.
\<close>

definition animation :: "'img lib \<Rightarrow> 'img list \<Rightarrow> exn + bytes" where
  "animation p images =
     (case frames_loop p (length images) (enumerate 0 images) [] of
        Inl e \<Rightarrow> Inl e
      | Inr [] \<Rightarrow> Inl IndexError
      | Inr (frame # frames) \<Rightarrow> save_gif p frame frames)"

text \<open>
  What a call leaves behind: the value returned or the exception raised, the camera and
  the state machine after the call, and the bucket timestamps \<^verbatim>\<open>get_image\<close> was called
  with, in the order of the calls.
\<close>

record call =
  returned :: "exn + bytes option"
  camera :: NeaRainCamera
  states_after :: state_machine
  fetched :: "datetime list"

text \<open>
  The branch under \<^verbatim>\<open>if len(images) == len(timestamps)\<close>. Both reads of
  \<^verbatim>\<open>self.hass.states.get(self.entity_id)\<close> see the same state machine; on \<^verbatim>\<open>None\<close> the
  first one raises AttributeError. \<^verbatim>\<open>timestamps[-1]\<close> is read where the list has as many
  elements as \<open>images\<close>, more than one.
\<close>

definition all_fetched ::
  "'img lib \<Rightarrow> world \<Rightarrow> NeaRainCamera \<Rightarrow> datetime list \<Rightarrow> call" where
  "all_fetched p w self timestamps =
     (let self1 = self\<lparr>last_image_time := Some (last timestamps)\<rparr>;
          pretty = isoformat p (last timestamps);
          self2 = self1\<lparr>last_image_time_pretty := Some pretty\<rparr>;
          url = rain_map_url p (last timestamps);
          self3 = self2\<lparr>last_url := Some url\<rparr>
      in case states w (entity_id self3) of
           None \<Rightarrow>
             \<lparr>returned = Inl AttributeError, camera = self3, states_after = states w,
              fetched = timestamps\<rparr>
         | Some st \<Rightarrow>
             let self4 = self3\<lparr>last_state := Some (state st)\<rparr>;
                 self5 = self4\<lparr>last_attributes := Some (attributes st)\<rparr>;
                 updated = (attributes st)(''Updated at'' \<mapsto> pretty, ''URL'' \<mapsto> url);
                 self6 = self5\<lparr>updated_attributes := Some updated\<rparr>
             in \<lparr>returned = Inr (last_image self6), camera = self6,
                 states_after = (states w)(entity_id self6 \<mapsto>
                   \<lparr>state = state st, attributes = updated\<rparr>),
                 fetched = timestamps\<rparr>)"

text \<open>\<^verbatim>\<open>async_camera_image\<close>, from \<^verbatim>\<open>td = timedelta(minutes = 5)\<close> to the last \<^verbatim>\<open>return\<close>.\<close>

definition async_camera_image :: "'img lib \<Rightarrow> world \<Rightarrow> NeaRainCamera \<Rightarrow> call" where
  "async_camera_image p w self =
     (case ceil_dt (clock w) td of
        Inl e \<Rightarrow> \<lparr>returned = Inl e, camera = self, states_after = states w, fetched = []\<rparr>
      | Inr now \<Rightarrow>
          if last_image_time self = Some (now - td) \<and> last_image self \<noteq> None
          then \<lparr>returned = Inr (last_image self), camera = self, states_after = states w,
                fetched = []\<rparr>
          else
            let timestamps = timestamps_loop (now - minutes 50) now [] in
            case gather (map (get_image p w) timestamps) of
              Inl e \<Rightarrow>
                \<lparr>returned = Inl e, camera = self, states_after = states w,
                 fetched = timestamps\<rparr>
            | Inr contents \<Rightarrow>
                (case images_loop p contents self [] of
                   (Inl e, self1) \<Rightarrow>
                     \<lparr>returned = Inl e, camera = self1, states_after = states w,
                      fetched = timestamps\<rparr>
                 | (Inr images, self1) \<Rightarrow>
                     if length images > 1
                     then
                       (case animation p images of
                          Inl e \<Rightarrow>
                            \<lparr>returned = Inl e, camera = self1, states_after = states w,
                             fetched = timestamps\<rparr>
                        | Inr buff \<Rightarrow>
                            let self2 = self1\<lparr>last_image := Some buff\<rparr> in
                            if length images = length timestamps
                            then all_fetched p w self2 timestamps
                            else
                              \<lparr>returned = Inr (last_image self2), camera = self2,
                               states_after = states w, fetched = timestamps\<rparr>)
                     else
                       \<lparr>returned = Inr (last_image self1), camera = self1,
                        states_after = states w, fetched = timestamps\<rparr>))"

text \<open>A sequence of calls on one camera, each in its own world.\<close>

fun calls :: "'img lib \<Rightarrow> world list \<Rightarrow> NeaRainCamera \<Rightarrow> NeaRainCamera" where
  "calls p [] self = self"
| "calls p (w # ws) self = calls p ws (camera (async_camera_image p w self))"

section \<open>Notions used in the statements\<close>

text \<open>
  What \<^verbatim>\<open>get_image\<close> hands back for a bucket when it returns, read off the outcome of the
  GET: the body of a 2xx response, and \<open>None\<close> otherwise.
\<close>

definition content :: "'img lib \<Rightarrow> world \<Rightarrow> datetime \<Rightarrow> bytes option" where
  "content p w timestamp =
     (case http_get w (rain_map_url p timestamp) of
        Response status body \<Rightarrow> if 200 \<le> status \<and> status \<le> 299 then Some body else None
      | Raises e \<Rightarrow> None)"

text \<open>
  The call of line 162 for the frame at index \<open>idx\<close> among \<open>n\<close>: a gray line of width 3
  along the top row, from \<open>x = 0\<close> to \<open>x = progress * w\<close>.
\<close>

definition bar :: "'img lib \<Rightarrow> nat \<Rightarrow> nat \<Rightarrow> 'img \<Rightarrow> exn + 'img" where
  "bar p n idx frame =
     draw_line p frame (0, 0, progress idx n * of_nat (fst (im_size p frame)), 0) ''gray'' 3"

text \<open>
  A call is a full cycle when it passes the cache gate, its fetches join, it opens as many
  images as it requested buckets, and drawing the bars and saving the animation succeed;
  \<open>full_cycle\<close> is then the timestamp of the last bucket, and \<open>None\<close> for every other call.
\<close>

definition full_cycle :: "'img lib \<Rightarrow> world \<Rightarrow> NeaRainCamera \<Rightarrow> datetime option" where
  "full_cycle p w self =
     (case ceil_dt (clock w) td of
        Inl e \<Rightarrow> None
      | Inr now \<Rightarrow>
          if last_image_time self = Some (now - td) \<and> last_image self \<noteq> None then None
          else
            let timestamps = timestamps_loop (now - minutes 50) now [] in
            case gather (map (get_image p w) timestamps) of
              Inl e \<Rightarrow> None
            | Inr contents \<Rightarrow>
                (case images_loop p contents self [] of
                   (Inl e, self1) \<Rightarrow> None
                 | (Inr images, self1) \<Rightarrow>
                     if length images > 1
                     then
                       (case animation p images of
                          Inl e \<Rightarrow> None
                        | Inr buff \<Rightarrow>
                            if length images = length timestamps
                            then Some (last timestamps)
                            else None)
                     else None))"

text \<open>The last bucket of the most recent full cycle in a sequence of calls.\<close>

fun last_full_cycle :: "'img lib \<Rightarrow> world list \<Rightarrow> NeaRainCamera \<Rightarrow> datetime option" where
  "last_full_cycle p [] self = None"
| "last_full_cycle p (w # ws) self =
     (case last_full_cycle p ws (camera (async_camera_image p w self)) of
        Some t \<Rightarrow> Some t
      | None \<Rightarrow> full_cycle p w self)"

text \<open>
  The fetches of a call join when \<^verbatim>\<open>asyncio.gather\<close> returns their results. A call got bytes
  when its fetches joined and one of them returned a body; a sequence of calls did when
  one of its calls did.
\<close>

definition joined :: "'img lib \<Rightarrow> world \<Rightarrow> NeaRainCamera \<Rightarrow> bool" where
  "joined p w self =
     (case gather (map (get_image p w) (fetched (async_camera_image p w self))) of
        Inl e \<Rightarrow> False
      | Inr contents \<Rightarrow> True)"

definition got_bytes :: "'img lib \<Rightarrow> world \<Rightarrow> NeaRainCamera \<Rightarrow> bool" where
  "got_bytes p w self =
     (case gather (map (get_image p w) (fetched (async_camera_image p w self))) of
        Inl e \<Rightarrow> False
      | Inr contents \<Rightarrow> list_ex (\<lambda>content. content \<noteq> None) contents)"

fun ever_got_bytes :: "'img lib \<Rightarrow> world list \<Rightarrow> NeaRainCamera \<Rightarrow> bool" where
  "ever_got_bytes p [] self = False"
| "ever_got_bytes p (w # ws) self =
     (got_bytes p w self \<or> ever_got_bytes p ws (camera (async_camera_image p w self)))"

section \<open>A small instance\<close>

text \<open>
  Pictures that are a width and the lines drawn on them, a stamp that is the minute of
  the hour, an image decoder that refuses an HTML page and opens a body of \<open>n\<close> bytes as a
  picture of width \<open>n\<close>, a drawing that fails on a picture of width 5 (the truncated file
  \<open>''trunc''\<close>), and the clock reading 2024-01-01 00:02:03, whose bucket ends at 00:05:00.
\<close>

type_synonym picture = "nat \<times> (rat \<times> rat \<times> rat \<times> rat) list"

definition minute_stamp :: "datetime \<Rightarrow> string" where
  "minute_stamp t =
     (let m = nat ((t div 60000000) mod 60)
      in [''0123456789'' ! (m div 10), ''0123456789'' ! (m mod 10)])"

definition demo_lib :: "picture lib" where
  "demo_lib =
     \<lparr> url_prefix = ''r/'',
       url_suffix = ''.png'',
       sg_stamp = minute_stamp,
       isoformat = (\<lambda>t. ''T'' @ minute_stamp t),
       image_open = (\<lambda>b. if b = ''<html>'' then Inl UnidentifiedImageError
                          else Inr (length b, [])),
       im_size = (\<lambda>(w, drawn). (w, w)),
       draw_line = (\<lambda>(w, drawn) xy fill width.
                      if w = 5 then Inl OSError else Inr (w, drawn @ [xy])),
       save_gif = (\<lambda>frame frames. Inr (replicate (Suc (length frames)) (CHR ''F''))) \<rparr>"

definition demo_clock :: datetime where
  "demo_clock = 63839664123000000"

definition demo_camera :: NeaRainCamera where
  "demo_camera = init ''NEA'' ''nea''"

section \<open>Bucketing\<close>

lemma td_pos: "0 < td"
  by (simp add: td_def minutes_def)

lemma ceil_offset_bounds:
  fixes t d :: int
  assumes "0 < d"
  shows "0 \<le> (datetime_min - t) mod d" and "(datetime_min - t) mod d < d"
  using assms by simp_all

lemma ceil_aligned:
  fixes t d :: int
  shows "(t + (datetime_min - t) mod d - datetime_min) mod d = 0"
proof -
  have "(t + (0 - t) mod d) mod d = (t + (0 - t)) mod d"
    by (rule mod_add_right_eq)
  then show ?thesis by (simp add: datetime_min_def)
qed

lemma aligned_fixed:
  fixes r d :: int
  assumes "(r - datetime_min) mod d = 0"
  shows "r + (datetime_min - r) mod d = r"
proof -
  from assms have "d dvd r" by (simp add: datetime_min_def mod_eq_0_iff_dvd)
  then have "d dvd - r" by simp
  then have "(- r) mod d = 0" by (simp only: mod_eq_0_iff_dvd)
  then show ?thesis by (simp add: datetime_min_def)
qed

lemma aligned_least:
  fixes t b d :: int
  assumes d: "0 < d" and tb: "t \<le> b" and b: "(b - datetime_min) mod d = 0"
  shows "t + (datetime_min - t) mod d \<le> b"
proof (rule ccontr)
  let ?r = "t + (datetime_min - t) mod d"
  assume "\<not> ?r \<le> b"
  then have pos: "0 < ?r - b" by simp
  have "(?r - datetime_min) mod d = 0" by (rule ceil_aligned)
  then have "d dvd ?r" by (simp add: datetime_min_def mod_eq_0_iff_dvd)
  moreover from b have "d dvd b" by (simp add: datetime_min_def mod_eq_0_iff_dvd)
  ultimately have "d dvd ?r - b" by (rule dvd_diff)
  with pos have "d \<le> ?r - b" by (simp add: zdvd_imp_le)
  moreover have "?r < t + d" using ceil_offset_bounds(2) [OF d, of t] by simp
  ultimately show False using tb by simp
qed

lemma ceil_dt_td: "ceil_dt t td = Inr (t + (datetime_min - t) mod td)"
  using td_pos by (simp add: ceil_dt_def)

lemma aligned_close:
  fixes a b d :: int
  assumes "(a - datetime_min) mod d = 0" and "(b - datetime_min) mod d = 0"
    and "a \<le> b" and "b < a + d"
  shows "a = b"
proof (rule ccontr)
  assume "a \<noteq> b"
  with assms(3) have pos: "0 < b - a" by simp
  from assms(1) have "d dvd a" by (simp add: datetime_min_def mod_eq_0_iff_dvd)
  moreover from assms(2) have "d dvd b" by (simp add: datetime_min_def mod_eq_0_iff_dvd)
  ultimately have "d dvd b - a" by (simp add: dvd_diff)
  with pos have "d \<le> b - a" by (simp add: zdvd_imp_le)
  with assms(4) show False by simp
qed

lemma same_bucket:
  fixes t' r :: int
  assumes r: "(r - datetime_min) mod td = 0" and lo: "r - td < t'" and hi: "t' \<le> r"
  shows "ceil_dt t' td = Inr r"
proof -
  let ?r' = "t' + (datetime_min - t') mod td"
  have 1: "?r' \<le> r" by (rule aligned_least [OF td_pos hi r])
  have 2: "t' \<le> ?r'" using ceil_offset_bounds(1) [OF td_pos, of t'] by simp
  have 3: "(?r' - datetime_min) mod td = 0" by (rule ceil_aligned)
  from 2 lo have 4: "r < ?r' + td" by simp
  from aligned_close [OF 3 r 1 4] show ?thesis by (simp only: ceil_dt_td)
qed

text \<open>
  C1. For every timestamp \<open>t\<close>, \<open>ceil_dt t td\<close> with the 5-minute bucket \<open>td\<close> returns a
  timestamp \<open>r\<close> with \<open>t \<le> r < t + td\<close> that lies on a 5-minute boundary counted from
  \<^verbatim>\<open>datetime.min\<close>. It is the least such boundary at or after \<open>t\<close>, and every timestamp
  of the same bucket, whatever its seconds and microseconds, is rounded to the same \<open>r\<close>;
  a timestamp on a boundary is returned as it is, and rounding the result again returns
  it unchanged.
\<close>

theorem ceil_dt_bucket:
  "\<exists>r. ceil_dt t td = Inr r \<and> t \<le> r \<and> r < t + td
      \<and> (r - datetime_min) mod td = 0
      \<and> (\<forall>b. t \<le> b \<and> (b - datetime_min) mod td = 0 \<longrightarrow> r \<le> b)
      \<and> (\<forall>t'. r - td < t' \<and> t' \<le> r \<longrightarrow> ceil_dt t' td = Inr r)
      \<and> ((t - datetime_min) mod td = 0 \<longrightarrow> r = t)
      \<and> ceil_dt r td = Inr r"
proof -
  let ?r = "t + (datetime_min - t) mod td"
  have 1: "ceil_dt t td = Inr ?r" by (rule ceil_dt_td)
  have 2: "t \<le> ?r" using ceil_offset_bounds(1) [OF td_pos, of t] by simp
  have 3: "?r < t + td" using ceil_offset_bounds(2) [OF td_pos, of t] by simp
  have 4: "(?r - datetime_min) mod td = 0" by (rule ceil_aligned)
  have 5: "\<forall>b. t \<le> b \<and> (b - datetime_min) mod td = 0 \<longrightarrow> ?r \<le> b"
  proof (intro allI impI)
    fix b assume "t \<le> b \<and> (b - datetime_min) mod td = 0"
    then show "?r \<le> b" using aligned_least [OF td_pos, of t b] by simp
  qed
  have 6: "\<forall>t'. ?r - td < t' \<and> t' \<le> ?r \<longrightarrow> ceil_dt t' td = Inr ?r"
  proof (intro allI impI)
    fix t' assume "?r - td < t' \<and> t' \<le> ?r"
    then show "ceil_dt t' td = Inr ?r" using same_bucket [OF 4, of t'] by simp
  qed
  have 7: "(t - datetime_min) mod td = 0 \<longrightarrow> ?r = t"
  proof
    assume "(t - datetime_min) mod td = 0"
    then show "?r = t" by (rule aligned_fixed)
  qed
  have 8: "ceil_dt ?r td = Inr ?r"
    using aligned_fixed [OF 4] by (simp add: ceil_dt_td)
  show ?thesis
    by (rule exI [of _ ?r]) (intro conjI 1 2 3 4 5 6 7 8)
qed

theorem ceil_dt_bucket_witness:
  "ceil_dt 63839664123000000 td = Inr 63839664300000000
   \<and> ceil_dt 63839664000000001 td = Inr 63839664300000000
   \<and> ceil_dt 63839664300000000 td = Inr 63839664300000000"
proof -
  from ceil_dt_bucket [of 63839664123000000] obtain r where
    r: "ceil_dt 63839664123000000 td = Inr r"
    and same: "\<forall>t'. r - td < t' \<and> t' \<le> r \<longrightarrow> ceil_dt t' td = Inr r"
    and again: "ceil_dt r td = Inr r"
    by blast
  from r have v: "r = 63839664300000000"
    by (simp add: ceil_dt_def td_def minutes_def datetime_min_def)
  have "r - td < 63839664000000001 \<and> 63839664000000001 \<le> r"
    by (simp add: v td_def minutes_def)
  with same have "ceil_dt 63839664000000001 td = Inr r" by blast
  with r again show ?thesis by (simp only: v)
qed

section \<open>The steps of a call\<close>

lemma timestamps_loop_window:
  "timestamps_loop (now - minutes 50) now [] =
     [now - minutes 50, now - minutes 45, now - minutes 40, now - minutes 35,
      now - minutes 30, now - minutes 25, now - minutes 20, now - minutes 15,
      now - minutes 10, now - minutes 5]"
  by (simp add: timestamps_loop.simps td_def minutes_def)

lemma length_window: "length (timestamps_loop (now - minutes 50) now []) = 10"
  by (simp add: timestamps_loop_window)

lemma last_window: "last (timestamps_loop (now - minutes 50) now []) = now - td"
  by (simp add: timestamps_loop_window td_def)

lemma get_image_eq:
  "get_image p w t =
     (case http_get w (rain_map_url p t) of
        Response status body \<Rightarrow> Inr (content p w t)
      | Raises e \<Rightarrow> if is_Exception e then Inr None else Inl e)"
  by (cases "http_get w (rain_map_url p t)")
     (auto simp: get_image_def content_def try_get_def Let_def split: exn.split)

lemma get_image_Inr: "get_image p w t = Inr c \<Longrightarrow> c = content p w t"
  by (cases "http_get w (rain_map_url p t)")
     (auto simp: get_image_eq content_def split: if_splits)

lemma get_image_Inl:
  "get_image p w t = Inl e \<Longrightarrow> \<not> is_Exception e \<and> http_get w (rain_map_url p t) = Raises e"
  by (cases "http_get w (rain_map_url p t)") (auto simp: get_image_eq split: if_splits)

lemma gather_Inr: "gather rs = Inr vs \<Longrightarrow> rs = map Inr vs"
  by (induction rs arbitrary: vs) (auto split: sum.splits)


lemma gather_Inl: "gather rs = Inl e \<Longrightarrow> Inl e \<in> set rs"
  by (induction rs) (auto split: sum.splits)

lemma gather_contents:
  assumes "gather (map (get_image p w) ts) = Inr contents"
  shows "contents = map (content p w) ts"
proof -
  from gather_Inr [OF assms] have eq: "map (get_image p w) ts = map Inr contents" .
  then have len: "length contents = length ts" by (metis length_map)
  show ?thesis
  proof (rule nth_equalityI)
    show "length contents = length (map (content p w) ts)" using len by simp
  next
    fix i assume i: "i < length contents"
    from eq have "map (get_image p w) ts ! i = map Inr contents ! i" by simp
    with i len have "get_image p w (ts ! i) = Inr (contents ! i)" by simp
    from get_image_Inr [OF this] i len show "contents ! i = map (content p w) ts ! i" by simp
  qed
qed


lemma gather_aborted:
  assumes "gather (map (get_image p w) ts) = Inl e"
  shows "\<not> is_Exception e \<and> (\<exists>t\<in>set ts. http_get w (rain_map_url p t) = Raises e)"
proof -
  from gather_Inl [OF assms] obtain t where "t \<in> set ts" "get_image p w t = Inl e" by auto
  with get_image_Inl [of p w t e] show ?thesis by blast
qed

lemma frames_loop_Inr:
  "frames_loop p n xs acc = Inr fs \<longleftrightarrow>
     (\<exists>ds. fs = acc @ ds \<and> list_all2 (\<lambda>x d. bar p n (fst x) (snd x) = Inr d) xs ds)"
proof (induction p n xs acc arbitrary: fs rule: frames_loop.induct)
  case (1 p n frames)
  show ?case by auto
next
  case (2 p n idx frame rest frames)
  obtain w h where wh: "im_size p frame = (w, h)" by (cases "im_size p frame")
  show ?case
  proof (cases "draw_line p frame (0, 0, progress idx n * of_nat w, 0) ''gray'' 3")
    case (Inl e)
    with wh show ?thesis by (auto simp: bar_def list_all2_Cons1)
  next
    case (Inr d)
    from "2.IH" [OF refl wh [symmetric] Inr, of fs] wh Inr
    show ?thesis by (auto simp: bar_def list_all2_Cons1)
  qed
qed

lemma frames_loop_Inl:
  "frames_loop p n xs acc = Inl e \<Longrightarrow>
     \<exists>k<length xs. bar p n (fst (xs ! k)) (snd (xs ! k)) = Inl e
        \<and> (\<forall>i<k. \<exists>d. bar p n (fst (xs ! i)) (snd (xs ! i)) = Inr d)"
proof (induction p n xs acc rule: frames_loop.induct)
  case (1 p n frames)
  then show ?case by simp
next
  case (2 p n idx frame rest frames)
  obtain w h where wh: "im_size p frame = (w, h)" by (cases "im_size p frame")
  show ?case
  proof (cases "draw_line p frame (0, 0, progress idx n * of_nat w, 0) ''gray'' 3")
    case (Inl e')
    with "2.prems" wh have "e' = e" by simp
    with Inl wh have "bar p n idx frame = Inl e" by (simp add: bar_def)
    then show ?thesis by (intro exI [of _ 0]) simp
  next
    case (Inr d)
    with "2.prems" wh have "frames_loop p n rest (frames @ [d]) = Inl e" by simp
    from "2.IH" [OF refl wh [symmetric] Inr this] obtain k where
      k: "k < length rest" "bar p n (fst (rest ! k)) (snd (rest ! k)) = Inl e"
         "\<forall>i<k. \<exists>d. bar p n (fst (rest ! i)) (snd (rest ! i)) = Inr d"
      by blast
    have d: "bar p n idx frame = Inr d" using Inr wh by (simp add: bar_def)
    show ?thesis
    proof (intro exI [of _ "Suc k"] conjI allI impI)
      show "Suc k < length ((idx, frame) # rest)" using k(1) by simp
      show "bar p n (fst (((idx, frame) # rest) ! Suc k)) (snd (((idx, frame) # rest) ! Suc k)) = Inl e"
        using k(2) by simp
      fix i assume "i < Suc k"
      then show "\<exists>d. bar p n (fst (((idx, frame) # rest) ! i)) (snd (((idx, frame) # rest) ! i)) = Inr d"
        using k(3) d by (cases i) auto
    qed
  qed
qed

lemma drawn_enumerate:
  "list_all2 (\<lambda>x d. bar p n (fst x) (snd x) = Inr d) (enumerate 0 images) fs \<longleftrightarrow>
     length fs = length images \<and> (\<forall>i<length images. bar p n i (images ! i) = Inr (fs ! i))"
  by (auto simp: list_all2_conv_all_nth nth_enumerate_eq)

lemma animation_Inr:
  assumes "images \<noteq> []"
  shows "animation p images = Inr buff \<longleftrightarrow>
     (\<exists>fs. length fs = length images
        \<and> (\<forall>i<length images. bar p (length images) i (images ! i) = Inr (fs ! i))
        \<and> save_gif p (hd fs) (tl fs) = Inr buff)"
proof
  assume a: "animation p images = Inr buff"
  then obtain fs where fl: "frames_loop p (length images) (enumerate 0 images) [] = Inr fs"
    by (cases "frames_loop p (length images) (enumerate 0 images) []")
       (auto simp: animation_def)
  then have d: "length fs = length images
      \<and> (\<forall>i<length images. bar p (length images) i (images ! i) = Inr (fs ! i))"
    by (simp add: frames_loop_Inr drawn_enumerate)
  with assms obtain f rest where fs: "fs = f # rest" by (cases fs) auto
  with a fl have "save_gif p (hd fs) (tl fs) = Inr buff" by (simp add: animation_def)
  with d show "\<exists>fs. length fs = length images
        \<and> (\<forall>i<length images. bar p (length images) i (images ! i) = Inr (fs ! i))
        \<and> save_gif p (hd fs) (tl fs) = Inr buff"
    by blast
next
  assume "\<exists>fs. length fs = length images
        \<and> (\<forall>i<length images. bar p (length images) i (images ! i) = Inr (fs ! i))
        \<and> save_gif p (hd fs) (tl fs) = Inr buff"
  then obtain fs where d: "length fs = length images"
      "\<forall>i<length images. bar p (length images) i (images ! i) = Inr (fs ! i)"
      and s: "save_gif p (hd fs) (tl fs) = Inr buff"
    by blast
  from d have fl: "frames_loop p (length images) (enumerate 0 images) [] = Inr fs"
    by (simp add: frames_loop_Inr drawn_enumerate)
  from d(1) assms obtain f rest where fs: "fs = f # rest" by (cases fs) auto
  with fl s show "animation p images = Inr buff" by (simp add: animation_def)
qed

lemma animation_Inl:
  assumes "images \<noteq> []" and "animation p images = Inl e"
  shows "(\<exists>k<length images. bar p (length images) k (images ! k) = Inl e
            \<and> (\<forall>i<k. \<exists>d. bar p (length images) i (images ! i) = Inr d))
       \<or> (\<exists>fs. length fs = length images
            \<and> (\<forall>i<length images. bar p (length images) i (images ! i) = Inr (fs ! i))
            \<and> save_gif p (hd fs) (tl fs) = Inl e)"
proof (cases "frames_loop p (length images) (enumerate 0 images) []")
  case (Inl e')
  with assms(2) have "e' = e" by (simp add: animation_def)
  with Inl frames_loop_Inl [of p "length images" "enumerate 0 images" "[]" e]
  show ?thesis by (auto simp: nth_enumerate_eq)
next
  case (Inr fs)
  then have d: "length fs = length images
      \<and> (\<forall>i<length images. bar p (length images) i (images ! i) = Inr (fs ! i))"
    by (simp add: frames_loop_Inr drawn_enumerate)
  with assms(1) obtain f rest where fs: "fs = f # rest" by (cases fs) auto
  with Inr assms(2) have "save_gif p (hd fs) (tl fs) = Inl e" by (simp add: animation_def)
  with d show ?thesis by blast
qed

lemma images_loop_none:
  "\<forall>c\<in>set cs. c = None \<Longrightarrow> images_loop p cs self imgs = (Inr imgs, self)"
  by (induction p cs self imgs rule: images_loop.induct) (auto simp: Let_def split: sum.splits)

lemma images_loop_keeps:
  "images_loop p cs self imgs = (r, self') \<Longrightarrow> last_image self \<noteq> None \<Longrightarrow> last_image self' \<noteq> None"
  by (induction p cs self imgs rule: images_loop.induct) (auto simp: Let_def split: sum.splits)

lemma images_loop_sets:
  "images_loop p cs self imgs = (r, self') \<Longrightarrow> \<exists>c\<in>set cs. c \<noteq> None \<Longrightarrow> last_image self' \<noteq> None"
  by (induction p cs self imgs rule: images_loop.induct) (auto simp: Let_def split: sum.splits dest: images_loop_keeps)

lemma images_loop_length:
  "images_loop p cs self imgs = (Inr images, self') \<Longrightarrow>
     length images = length imgs + length (filter (\<lambda>c. c \<noteq> None) cs)"
  by (induction p cs self imgs arbitrary: images rule: images_loop.induct) (auto simp: Let_def split: sum.splits)

lemma images_loop_unchanged:
  assumes "images_loop p cs self imgs = (Inr images, self1)"
    and "length images = length imgs"
  shows "self1 = self \<and> images = imgs \<and> (\<forall>c\<in>set cs. c = None)"
proof -
  from images_loop_length [OF assms(1)] assms(2)
  have "filter (\<lambda>c. c \<noteq> None) cs = []" by simp
  then have none: "\<forall>c\<in>set cs. c = None" by (simp add: filter_empty_conv)
  from images_loop_none [OF this, of p self imgs] assms(1) none show ?thesis by simp
qed

lemma images_loop_single:
  "images_loop p cs self imgs = (Inr images, self1) \<Longrightarrow> length images = Suc (length imgs) \<Longrightarrow>
     \<exists>body img. Some body \<in> set cs \<and> image_open p body = Inr img \<and> images = imgs @ [img]
        \<and> self1 = self\<lparr>last_image := Some body\<rparr>"
proof (induction p cs self imgs rule: images_loop.induct)
  case (1 p self images)
  then show ?case by simp
next
  case (2 p contents self images)
  then show ?case by auto
next
  case (3 p content contents self imgs)
  from "3.prems"(1) obtain img where img: "image_open p content = Inr img"
    by (cases "image_open p content") (auto simp: Let_def)
  with "3.prems"(1) have rest:
    "images_loop p contents (self\<lparr>last_image := Some content\<rparr>) (imgs @ [img]) = (Inr images, self1)"
    by (simp add: Let_def)
  from images_loop_unchanged [OF rest] "3.prems"(2)
  have "self1 = self\<lparr>last_image := Some content\<rparr> \<and> images = imgs @ [img]" by simp
  with img show ?case by auto
qed


lemma images_loop_entity:
  "images_loop p cs self imgs = (r, self1) \<Longrightarrow>
     entity_id self1 = entity_id self \<and> last_image_time self1 = last_image_time self
     \<and> last_image_time_pretty self1 = last_image_time_pretty self \<and> last_url self1 = last_url self"
  by (induction p cs self imgs rule: images_loop.induct)
     (auto simp: Let_def split: sum.splits)

lemma gate_eq:
  assumes "ceil_dt (clock w) td = Inr now"
    and "last_image_time self = Some (now - td)" and "last_image self \<noteq> None"
  shows "async_camera_image p w self =
           \<lparr>returned = Inr (last_image self), camera = self, states_after = states w,
            fetched = []\<rparr>"
  unfolding async_camera_image_def using assms by simp

lemma open_eq:
  assumes now: "ceil_dt (clock w) td = Inr now"
    and ng: "\<not> (last_image_time self = Some (now - td) \<and> last_image self \<noteq> None)"
  shows "async_camera_image p w self =
     (let timestamps = timestamps_loop (now - minutes 50) now [] in
            case gather (map (get_image p w) timestamps) of
              Inl e \<Rightarrow>
                \<lparr>returned = Inl e, camera = self, states_after = states w,
                 fetched = timestamps\<rparr>
            | Inr contents \<Rightarrow>
                (case images_loop p contents self [] of
                   (Inl e, self1) \<Rightarrow>
                     \<lparr>returned = Inl e, camera = self1, states_after = states w,
                      fetched = timestamps\<rparr>
                 | (Inr images, self1) \<Rightarrow>
                     if length images > 1
                     then
                       (case animation p images of
                          Inl e \<Rightarrow>
                            \<lparr>returned = Inl e, camera = self1, states_after = states w,
                             fetched = timestamps\<rparr>
                        | Inr buff \<Rightarrow>
                            let self2 = self1\<lparr>last_image := Some buff\<rparr> in
                            if length images = length timestamps
                            then all_fetched p w self2 timestamps
                            else
                              \<lparr>returned = Inr (last_image self2), camera = self2,
                               states_after = states w, fetched = timestamps\<rparr>)
                     else
                       \<lparr>returned = Inr (last_image self1), camera = self1,
                        states_after = states w, fetched = timestamps\<rparr>))"
  unfolding async_camera_image_def by (simp only: now sum.case if_not_P [OF ng])

lemma abort_eq:
  assumes now: "ceil_dt (clock w) td = Inr now"
    and ng: "\<not> (last_image_time self = Some (now - td) \<and> last_image self \<noteq> None)"
    and g: "gather (map (get_image p w) (timestamps_loop (now - minutes 50) now [])) = Inl e"
  shows "async_camera_image p w self =
     \<lparr>returned = Inl e, camera = self, states_after = states w,
      fetched = timestamps_loop (now - minutes 50) now []\<rparr>"
  by (simp add: open_eq [OF now ng] Let_def g)

lemma cycle_eq:
  assumes now: "ceil_dt (clock w) td = Inr now"
    and ng: "\<not> (last_image_time self = Some (now - td) \<and> last_image self \<noteq> None)"
    and g: "gather (map (get_image p w) (timestamps_loop (now - minutes 50) now [])) = Inr contents"
  shows "async_camera_image p w self =
     (case images_loop p contents self [] of
        (Inl e, self1) \<Rightarrow>
          \<lparr>returned = Inl e, camera = self1, states_after = states w,
           fetched = timestamps_loop (now - minutes 50) now []\<rparr>
      | (Inr images, self1) \<Rightarrow>
          if length images > 1
          then
            (case animation p images of
               Inl e \<Rightarrow>
                 \<lparr>returned = Inl e, camera = self1, states_after = states w,
                  fetched = timestamps_loop (now - minutes 50) now []\<rparr>
             | Inr buff \<Rightarrow>
                 if length images = 10
                 then all_fetched p w (self1\<lparr>last_image := Some buff\<rparr>)
                        (timestamps_loop (now - minutes 50) now [])
                 else
                   \<lparr>returned = Inr (Some buff), camera = self1\<lparr>last_image := Some buff\<rparr>,
                    states_after = states w,
                    fetched = timestamps_loop (now - minutes 50) now []\<rparr>)
          else
            \<lparr>returned = Inr (last_image self1), camera = self1, states_after = states w,
             fetched = timestamps_loop (now - minutes 50) now []\<rparr>)"
  by (simp add: open_eq [OF now ng] Let_def g length_window split: prod.split sum.split)

lemma async_camera_image_cases:
  fixes p :: "'img lib"
  obtains
    (gate) now where
      "ceil_dt (clock w) td = Inr now"
      "last_image_time self = Some (now - td)" "last_image self \<noteq> None"
      "async_camera_image p w self =
         \<lparr>returned = Inr (last_image self), camera = self, states_after = states w, fetched = []\<rparr>"
  | (aborted) now e where
      "ceil_dt (clock w) td = Inr now"
      "\<not> (last_image_time self = Some (now - td) \<and> last_image self \<noteq> None)"
      "gather (map (get_image p w) (timestamps_loop (now - minutes 50) now [])) = Inl e"
      "async_camera_image p w self =
         \<lparr>returned = Inl e, camera = self, states_after = states w,
          fetched = timestamps_loop (now - minutes 50) now []\<rparr>"
  | (undecoded) now contents e self1 where
      "ceil_dt (clock w) td = Inr now"
      "\<not> (last_image_time self = Some (now - td) \<and> last_image self \<noteq> None)"
      "gather (map (get_image p w) (timestamps_loop (now - minutes 50) now [])) = Inr contents"
      "images_loop p contents self [] = (Inl e, self1)"
      "async_camera_image p w self =
         \<lparr>returned = Inl e, camera = self1, states_after = states w,
          fetched = timestamps_loop (now - minutes 50) now []\<rparr>"
  | (few) now contents images self1 where
      "ceil_dt (clock w) td = Inr now"
      "\<not> (last_image_time self = Some (now - td) \<and> last_image self \<noteq> None)"
      "gather (map (get_image p w) (timestamps_loop (now - minutes 50) now [])) = Inr contents"
      "images_loop p contents self [] = (Inr images, self1)"
      "length images \<le> 1"
      "async_camera_image p w self =
         \<lparr>returned = Inr (last_image self1), camera = self1, states_after = states w,
          fetched = timestamps_loop (now - minutes 50) now []\<rparr>"
  | (undrawn) now contents images self1 e where
      "ceil_dt (clock w) td = Inr now"
      "\<not> (last_image_time self = Some (now - td) \<and> last_image self \<noteq> None)"
      "gather (map (get_image p w) (timestamps_loop (now - minutes 50) now [])) = Inr contents"
      "images_loop p contents self [] = (Inr images, self1)"
      "1 < length images"
      "animation p images = Inl e"
      "async_camera_image p w self =
         \<lparr>returned = Inl e, camera = self1, states_after = states w,
          fetched = timestamps_loop (now - minutes 50) now []\<rparr>"
  | (some) now contents images self1 buff where
      "ceil_dt (clock w) td = Inr now"
      "\<not> (last_image_time self = Some (now - td) \<and> last_image self \<noteq> None)"
      "gather (map (get_image p w) (timestamps_loop (now - minutes 50) now [])) = Inr contents"
      "images_loop p contents self [] = (Inr images, self1)"
      "1 < length images" "length images \<noteq> 10"
      "animation p images = Inr buff"
      "async_camera_image p w self =
         \<lparr>returned = Inr (Some buff), camera = self1\<lparr>last_image := Some buff\<rparr>,
          states_after = states w, fetched = timestamps_loop (now - minutes 50) now []\<rparr>"
  | (all) now contents images self1 buff where
      "ceil_dt (clock w) td = Inr now"
      "\<not> (last_image_time self = Some (now - td) \<and> last_image self \<noteq> None)"
      "gather (map (get_image p w) (timestamps_loop (now - minutes 50) now [])) = Inr contents"
      "images_loop p contents self [] = (Inr images, self1)"
      "length images = 10"
      "animation p images = Inr buff"
      "async_camera_image p w self =
         all_fetched p w (self1\<lparr>last_image := Some buff\<rparr>)
           (timestamps_loop (now - minutes 50) now [])"
proof -
  let ?now = "clock w + (datetime_min - clock w) mod td"
  let ?ts = "timestamps_loop (?now - minutes 50) ?now []"
  have now: "ceil_dt (clock w) td = Inr ?now" by (rule ceil_dt_td)
  show thesis
  proof (cases "last_image_time self = Some (?now - td) \<and> last_image self \<noteq> None")
    case True
    then show thesis using gate [OF now] gate_eq [OF now] by blast
  next
    case False
    note ng = False
    show thesis
    proof (cases "gather (map (get_image p w) ?ts)")
      case (Inl e)
      from aborted [OF now ng Inl abort_eq [OF now ng Inl]] show thesis .
    next
      case g: (Inr contents)
      note eq = cycle_eq [OF now ng g]
      obtain res self1 where il: "images_loop p contents self [] = (res, self1)"
        by (cases "images_loop p contents self []")
      show thesis
      proof (cases res)
        case (Inl e)
        have "async_camera_image p w self =
           \<lparr>returned = Inl e, camera = self1, states_after = states w, fetched = ?ts\<rparr>"
          using il Inl by (simp add: eq)
        with il Inl show thesis using undecoded [OF now ng g, of e self1] by simp
      next
        case (Inr images)
        show thesis
        proof (cases "1 < length images")
          case False
          have "async_camera_image p w self =
            \<lparr>returned = Inr (last_image self1), camera = self1, states_after = states w,
             fetched = ?ts\<rparr>"
            using il Inr False by (simp add: eq)
          with il Inr False show thesis using few [OF now ng g, of images self1] by simp
        next
          case True
          show thesis
          proof (cases "animation p images")
            case (Inl e)
            have "async_camera_image p w self =
              \<lparr>returned = Inl e, camera = self1, states_after = states w, fetched = ?ts\<rparr>"
              using il Inr True Inl by (simp add: eq)
            with il Inr True Inl show thesis
              using undrawn [OF now ng g, of images self1 e] by simp
          next
            case buff: (Inr buff)
            show thesis
            proof (cases "length images = 10")
              case False
              have "async_camera_image p w self =
                \<lparr>returned = Inr (Some buff), camera = self1\<lparr>last_image := Some buff\<rparr>,
                 states_after = states w, fetched = ?ts\<rparr>"
                using il Inr True False buff by (simp add: eq)
              with il Inr True False buff show thesis
                using some [OF now ng g, of images self1 buff] by simp
            next
              case full: True
              have "async_camera_image p w self =
                all_fetched p w (self1\<lparr>last_image := Some buff\<rparr>) ?ts"
                using il Inr True full buff by (simp add: eq)
              with il Inr full buff show thesis
                using all [OF now ng g, of images self1 buff] by simp
            qed
          qed
        qed
      qed
    qed
  qed
qed

lemma fetched_cycle:
  assumes "ceil_dt (clock w) td = Inr now"
    and "\<not> (last_image_time self = Some (now - td) \<and> last_image self \<noteq> None)"
  shows "fetched (async_camera_image p w self) = timestamps_loop (now - minutes 50) now []"
  by (simp add: open_eq [OF assms] all_fetched_def Let_def
      split: prod.split sum.split option.split)

lemma all_fetched_camera:
  "last_image (camera (all_fetched p w self ts)) = last_image self
   \<and> last_image_time (camera (all_fetched p w self ts)) = Some (last ts)
   \<and> last_image_time_pretty (camera (all_fetched p w self ts)) = Some (isoformat p (last ts))
   \<and> last_url (camera (all_fetched p w self ts)) = Some (rain_map_url p (last ts))
   \<and> entity_id (camera (all_fetched p w self ts)) = entity_id self"
  by (simp add: all_fetched_def Let_def split: option.split)

lemma all_fetched_returned:
  "returned (all_fetched p w self ts) =
     (case states w (entity_id self) of
        None \<Rightarrow> Inl AttributeError
      | Some st \<Rightarrow> Inr (last_image self))"
  by (simp add: all_fetched_def Let_def split: option.split)

lemma returned_last_image:
  "returned (async_camera_image p w self) = Inr v \<Longrightarrow>
     v = last_image (camera (async_camera_image p w self))"
  by (rule async_camera_image_cases [where p = p and w = w and self = self])
     (auto simp: all_fetched_camera all_fetched_returned split: option.splits)

section \<open>The requested buckets\<close>

text \<open>
  C2. A call that passes the cache gate calls \<^verbatim>\<open>get_image\<close> for exactly ten bucket
  timestamps: \<open>now - 50 min\<close>, \<open>now - 45 min\<close>, ..., \<open>now - 5 min\<close>, where \<open>now\<close> is the
  clock reading rounded up to its 5-minute bucket. They are all before \<open>now\<close>, 5 minutes
  apart, oldest first.
\<close>

theorem requested_buckets:
  assumes "ceil_dt (clock w) td = Inr now"
    and "\<not> (last_image_time self = Some (now - td) \<and> last_image self \<noteq> None)"
  shows "fetched (async_camera_image p w self) =
           [now - minutes 50, now - minutes 45, now - minutes 40, now - minutes 35,
            now - minutes 30, now - minutes 25, now - minutes 20, now - minutes 15,
            now - minutes 10, now - minutes 5]
       \<and> length (fetched (async_camera_image p w self)) = 10
       \<and> fetched (async_camera_image p w self) =
           map (\<lambda>k. now - minutes 50 + int k * td) [0..<10]
       \<and> (\<forall>t \<in> set (fetched (async_camera_image p w self)). t < now)
       \<and> (\<forall>i<9. fetched (async_camera_image p w self) ! Suc i
                  - fetched (async_camera_image p w self) ! i = td)
       \<and> sorted_wrt (<) (fetched (async_camera_image p w self))"
proof -
  let ?ts = "fetched (async_camera_image p w self)"
  have 1: "?ts =
           [now - minutes 50, now - minutes 45, now - minutes 40, now - minutes 35,
            now - minutes 30, now - minutes 25, now - minutes 20, now - minutes 15,
            now - minutes 10, now - minutes 5]"
    by (simp only: fetched_cycle [OF assms] timestamps_loop_window)
  have 2: "length ?ts = 10" by (simp add: 1)
  have up: "[0..<10] = [0, 1, 2, 3, 4, 5, 6, 7, 8, Suc 8]"
    by (simp add: upt_rec)
  have 3: "?ts = map (\<lambda>k. now - minutes 50 + int k * td) [0..<10]"
    unfolding 1 up by (simp add: td_def minutes_def)
  have 4: "\<forall>t \<in> set ?ts. t < now" by (simp add: 1 minutes_def)
  have 5: "\<forall>i<9. ?ts ! Suc i - ?ts ! i = td"
  proof (intro allI impI)
    fix i :: nat assume "i < 9"
    then have "i \<in> {0, 1, 2, 3, 4, 5, 6, 7, 8}" by auto
    then show "?ts ! Suc i - ?ts ! i = td"
      unfolding 1 by (auto simp: td_def minutes_def)
  qed
  have 6: "sorted_wrt (<) ?ts" by (simp add: 1 minutes_def)
  from 1 2 3 4 5 6 show ?thesis by (intro conjI)
qed

theorem requested_buckets_witness:
  "fetched (async_camera_image demo_lib
       \<lparr>clock = demo_clock, http_get = (\<lambda>url. Raises TimeoutException), states = Map.empty\<rparr>
       demo_camera) =
     [63839661300000000, 63839661600000000, 63839661900000000, 63839662200000000,
      63839662500000000, 63839662800000000, 63839663100000000, 63839663400000000,
      63839663700000000, 63839664000000000]"
  using requested_buckets [of "\<lparr>clock = demo_clock, http_get = (\<lambda>url. Raises TimeoutException),
      states = Map.empty\<rparr>" 63839664300000000 demo_camera demo_lib]
  by (simp add: ceil_dt_def td_def minutes_def datetime_min_def demo_clock_def demo_camera_def
      init_def)

section \<open>The cache gate\<close>

text \<open>
  C3. When the cached last-frame timestamp is \<open>now - 5 min\<close> and an image is cached, the
  call returns the cached bytes, fetches nothing, and leaves the camera and the state
  machine of the host as they are. A second call in the same bucket does the same, with
  the same bytes; and when the camera was left by an earlier call that returned, the bytes
  are those that call returned.
\<close>

theorem cache_gate:
  assumes "ceil_dt (clock w) td = Inr now"
    and "last_image_time self = Some (now - td)"
    and "last_image self = Some cached"
  shows "async_camera_image p w self =
           \<lparr>returned = Inr (Some cached), camera = self, states_after = states w, fetched = []\<rparr>
       \<and> (\<forall>w2. ceil_dt (clock w2) td = Inr now \<longrightarrow>
             async_camera_image p w2 (camera (async_camera_image p w self)) =
               \<lparr>returned = Inr (Some cached), camera = self, states_after = states w2,
                fetched = []\<rparr>)
       \<and> (\<forall>w0 self0 v. self = camera (async_camera_image p w0 self0)
             \<and> returned (async_camera_image p w0 self0) = Inr v \<longrightarrow> v = Some cached)"
proof -
  have g: "\<And>w'. ceil_dt (clock w') td = Inr now \<Longrightarrow>
      async_camera_image p w' self =
        \<lparr>returned = Inr (Some cached), camera = self, states_after = states w', fetched = []\<rparr>"
    using assms(2,3) by (simp add: gate_eq)
  have 1: "async_camera_image p w self =
      \<lparr>returned = Inr (Some cached), camera = self, states_after = states w, fetched = []\<rparr>"
    by (rule g [OF assms(1)])
  have 2: "\<forall>w2. ceil_dt (clock w2) td = Inr now \<longrightarrow>
             async_camera_image p w2 (camera (async_camera_image p w self)) =
               \<lparr>returned = Inr (Some cached), camera = self, states_after = states w2,
                fetched = []\<rparr>"
    by (simp add: 1 g)
  have 3: "\<forall>w0 self0 v. self = camera (async_camera_image p w0 self0)
             \<and> returned (async_camera_image p w0 self0) = Inr v \<longrightarrow> v = Some cached"
    using assms(3) returned_last_image by fastforce
  from 1 2 3 show ?thesis by (intro conjI)
qed

theorem cache_gate_witness:
  "async_camera_image demo_lib
     \<lparr>clock = demo_clock, http_get = (\<lambda>url. Response 200 ''png''), states = Map.empty\<rparr>
     (demo_camera\<lparr>last_image_time := Some 63839664000000000, last_image := Some ''FF''\<rparr>) =
   \<lparr>returned = Inr (Some ''FF''),
    camera = demo_camera\<lparr>last_image_time := Some 63839664000000000, last_image := Some ''FF''\<rparr>,
    states_after = Map.empty, fetched = []\<rparr>"
  using cache_gate [of
      "\<lparr>clock = demo_clock, http_get = (\<lambda>url. Response 200 ''png''), states = Map.empty\<rparr>"
      63839664300000000
      "demo_camera\<lparr>last_image_time := Some 63839664000000000, last_image := Some ''FF''\<rparr>"
      "''FF''" demo_lib]
  by (simp add: ceil_dt_def td_def minutes_def datetime_min_def demo_clock_def)

section \<open>Failures of a fetch\<close>

text \<open>
  C5, as the code has it. \<^verbatim>\<open>get_image\<close> returns the body of a response with a 2xx status,
  and \<open>None\<close> for every failure of the request that is an exception derived from
  \<^verbatim>\<open>Exception\<close> (a timeout, a status that is not 2xx, a transport error, any other such
  exception): none of these leaves \<^verbatim>\<open>get_image\<close>. The exceptions that leave it are exactly
  those raised by the request that do not derive from \<^verbatim>\<open>Exception\<close>, such as
  \<^verbatim>\<open>asyncio.CancelledError\<close>.
\<close>

theorem get_image_absence:
  "get_image p w timestamp =
     (case http_get w (rain_map_url p timestamp) of
        Response status body \<Rightarrow>
          if 200 \<le> status \<and> status \<le> 299 then Inr (Some body) else Inr None
      | Raises e \<Rightarrow> if is_Exception e then Inr None else Inl e)
   \<and> (\<forall>e. get_image p w timestamp = Inl e \<longleftrightarrow>
          \<not> is_Exception e \<and> http_get w (rain_map_url p timestamp) = Raises e)
   \<and> is_Exception TimeoutException \<and> is_Exception HTTPStatusError
   \<and> is_Exception RequestError \<and> (\<forall>c. is_Exception (OtherException c))
   \<and> \<not> is_Exception CancelledError"
proof -
  have 1: "get_image p w timestamp =
     (case http_get w (rain_map_url p timestamp) of
        Response status body \<Rightarrow>
          if 200 \<le> status \<and> status \<le> 299 then Inr (Some body) else Inr None
      | Raises e \<Rightarrow> if is_Exception e then Inr None else Inl e)"
  proof (cases "http_get w (rain_map_url p timestamp)")
    case (Response status body)
    then show ?thesis by (simp add: get_image_eq content_def)
  next
    case (Raises e)
    then show ?thesis by (simp add: get_image_eq)
  qed
  have 2: "\<forall>e. get_image p w timestamp = Inl e \<longleftrightarrow>
          \<not> is_Exception e \<and> http_get w (rain_map_url p timestamp) = Raises e"
  proof (intro allI iffI)
    fix e assume "get_image p w timestamp = Inl e"
    then show "\<not> is_Exception e \<and> http_get w (rain_map_url p timestamp) = Raises e"
      by (rule get_image_Inl)
  next
    fix e assume "\<not> is_Exception e \<and> http_get w (rain_map_url p timestamp) = Raises e"
    then show "get_image p w timestamp = Inl e" by (simp add: get_image_eq)
  qed
  from 1 2 show ?thesis by simp
qed

theorem get_image_absence_witness:
  "get_image demo_lib
     \<lparr>clock = demo_clock,
      http_get = (\<lambda>url. if url = ''r/00.png'' then Raises TimeoutException
                        else if url = ''r/55.png'' then Raises (OtherException ''ssl'')
                        else if url = ''r/50.png'' then Response 404 ''gone''
                        else Response 200 ''png''),
      states = Map.empty\<rparr> 63839664000000000 = Inr None
   \<and> get_image demo_lib
     \<lparr>clock = demo_clock,
      http_get = (\<lambda>url. if url = ''r/00.png'' then Raises TimeoutException
                        else if url = ''r/55.png'' then Raises (OtherException ''ssl'')
                        else if url = ''r/50.png'' then Response 404 ''gone''
                        else Response 200 ''png''),
      states = Map.empty\<rparr> 63839663700000000 = Inr None
   \<and> get_image demo_lib
     \<lparr>clock = demo_clock,
      http_get = (\<lambda>url. if url = ''r/00.png'' then Raises TimeoutException
                        else if url = ''r/55.png'' then Raises (OtherException ''ssl'')
                        else if url = ''r/50.png'' then Response 404 ''gone''
                        else Response 200 ''png''),
      states = Map.empty\<rparr> 63839663400000000 = Inr None
   \<and> get_image demo_lib
     \<lparr>clock = demo_clock,
      http_get = (\<lambda>url. if url = ''r/00.png'' then Raises TimeoutException
                        else if url = ''r/55.png'' then Raises (OtherException ''ssl'')
                        else if url = ''r/50.png'' then Response 404 ''gone''
                        else Response 200 ''png''),
      states = Map.empty\<rparr> 63839663100000000 = Inr (Some ''png'')"
proof -
  let ?w = "\<lparr>clock = demo_clock,
      http_get = (\<lambda>url. if url = ''r/00.png'' then Raises TimeoutException
                        else if url = ''r/55.png'' then Raises (OtherException ''ssl'')
                        else if url = ''r/50.png'' then Response 404 ''gone''
                        else Response 200 ''png''),
      states = Map.empty\<rparr>"
  have u: "rain_map_url demo_lib 63839664000000000 = ''r/00.png''"
    "rain_map_url demo_lib 63839663700000000 = ''r/55.png''"
    "rain_map_url demo_lib 63839663400000000 = ''r/50.png''"
    "rain_map_url demo_lib 63839663100000000 = ''r/45.png''"
    by (simp_all add: rain_map_url_def demo_lib_def minute_stamp_def)
  from get_image_absence [of demo_lib ?w 63839664000000000, THEN conjunct1]
  have 1: "get_image demo_lib ?w 63839664000000000 = Inr None" by (simp add: u)
  from get_image_absence [of demo_lib ?w 63839663700000000, THEN conjunct1]
  have 2: "get_image demo_lib ?w 63839663700000000 = Inr None" by (simp add: u)
  from get_image_absence [of demo_lib ?w 63839663400000000, THEN conjunct1]
  have 3: "get_image demo_lib ?w 63839663400000000 = Inr None" by (simp add: u)
  from get_image_absence [of demo_lib ?w 63839663100000000, THEN conjunct1]
  have 4: "get_image demo_lib ?w 63839663100000000 = Inr (Some ''png'')" by (simp add: u)
  from 1 2 3 4 show ?thesis by (intro conjI)
qed

text \<open>
  C5 as it was stated fails for an exception that is no \<^verbatim>\<open>Exception\<close>: when the awaited GET
  raises \<^verbatim>\<open>asyncio.CancelledError\<close>, no \<^verbatim>\<open>except\<close> clause matches and \<^verbatim>\<open>get_image\<close> raises it.
\<close>

theorem get_image_absence_counterexample:
  "get_image demo_lib
     \<lparr>clock = demo_clock, http_get = (\<lambda>url. Raises CancelledError), states = Map.empty\<rparr>
     63839664000000000 = Inl CancelledError"
  by (simp add: get_image_eq)

section \<open>The small instance, evaluated\<close>

lemma demo_now: "ceil_dt demo_clock td = Inr 63839664300000000"
  by (simp add: ceil_dt_def td_def minutes_def datetime_min_def demo_clock_def)

lemma demo_gate_open:
  "\<not> (last_image_time demo_camera = Some (63839664300000000 - td)
       \<and> last_image demo_camera \<noteq> None)"
  by (simp add: demo_camera_def init_def)

lemma demo_entity: "entity_id demo_camera = ''camera.nea_rain_map''"
  by (simp add: demo_camera_def init_def lower_def lower_char_def replace_space_def)

lemma demo_window:
  "timestamps_loop (63839664300000000 - minutes 50) 63839664300000000 [] =
     [63839661300000000, 63839661600000000, 63839661900000000, 63839662200000000,
      63839662500000000, 63839662800000000, 63839663100000000, 63839663400000000,
      63839663700000000, 63839664000000000]"
  using timestamps_loop_window [of 63839664300000000] by (simp add: minutes_def)

lemma demo_urls:
  "map (rain_map_url demo_lib)
     [63839661300000000, 63839661600000000, 63839661900000000, 63839662200000000,
      63839662500000000, 63839662800000000, 63839663100000000, 63839663400000000,
      63839663700000000, 63839664000000000] =
   [''r/15.png'', ''r/20.png'', ''r/25.png'', ''r/30.png'', ''r/35.png'',
    ''r/40.png'', ''r/45.png'', ''r/50.png'', ''r/55.png'', ''r/00.png'']"
  by (simp add: rain_map_url_def demo_lib_def minute_stamp_def)

lemma demo_gather_none:
  "gather (map (get_image demo_lib
      \<lparr>clock = c, http_get = (\<lambda>url. Raises TimeoutException), states = st\<rparr>) ts) =
   Inr (map (\<lambda>t. None) ts)"
  by (induction ts) (simp_all add: get_image_eq)

lemma demo_gather_one:
  "gather (map (get_image demo_lib
      \<lparr>clock = c,
       http_get = (\<lambda>url. if url = ''r/00.png'' then Response 200 ''png'' else Response 404 []),
       states = st\<rparr>)
     (timestamps_loop (63839664300000000 - minutes 50) 63839664300000000 [])) =
   Inr [None, None, None, None, None, None, None, None, None, Some ''png'']"
  using demo_urls by (simp add: demo_window get_image_eq content_def)

lemma demo_gather_same:
  "gather (map (get_image demo_lib
      \<lparr>clock = c, http_get = (\<lambda>url. Response 200 body), states = st\<rparr>) ts) =
   Inr (map (\<lambda>t. Some body) ts)"
  by (induction ts) (simp_all add: get_image_eq content_def)

section \<open>Cycles with fewer than two frames\<close>

text \<open>
  C4, as the code has it. In a cycle whose fetches join and whose fetched bodies all open
  as images: with no frame, the call returns the cached image (\<open>None\<close> when there is none)
  and changes no field of the camera; with exactly one frame, no animation is encoded, the
  bytes of the one fetched body are stored as the last image and returned, and no other
  field changes. The state machine of the host is as before in both cases.
\<close>

theorem few_frames:
  assumes "ceil_dt (clock w) td = Inr now"
    and "\<not> (last_image_time self = Some (now - td) \<and> last_image self \<noteq> None)"
    and "gather (map (get_image p w) (timestamps_loop (now - minutes 50) now [])) = Inr contents"
    and "images_loop p contents self [] = (Inr images, self1)"
  shows "(length images = 0 \<longrightarrow>
            async_camera_image p w self =
              \<lparr>returned = Inr (last_image self), camera = self, states_after = states w,
               fetched = timestamps_loop (now - minutes 50) now []\<rparr>)
       \<and> (length images = 1 \<longrightarrow>
            (\<exists>body. body \<in> set contents
               \<and> body \<noteq> None
               \<and> image_open p (the body) = Inr (hd images)
               \<and> async_camera_image p w self =
                   \<lparr>returned = Inr body, camera = self\<lparr>last_image := body\<rparr>,
                    states_after = states w,
                    fetched = timestamps_loop (now - minutes 50) now []\<rparr>))"
proof (intro conjI impI)
  assume "length images = 0"
  with images_loop_unchanged [OF assms(4)] have "self1 = self" by simp
  with assms(4) \<open>length images = 0\<close> show "async_camera_image p w self =
      \<lparr>returned = Inr (last_image self), camera = self, states_after = states w,
       fetched = timestamps_loop (now - minutes 50) now []\<rparr>"
    by (simp add: cycle_eq [OF assms(1,2,3)])
next
  assume one: "length images = 1"
  with images_loop_single [OF assms(4)] obtain body img where
    b: "Some body \<in> set contents"
       "image_open p body = Inr img" "images = [img]" "self1 = self\<lparr>last_image := Some body\<rparr>"
    by auto
  have "async_camera_image p w self =
      \<lparr>returned = Inr (Some body), camera = self\<lparr>last_image := Some body\<rparr>,
       states_after = states w, fetched = timestamps_loop (now - minutes 50) now []\<rparr>"
    using assms(4) b(3,4) by (simp add: cycle_eq [OF assms(1,2,3)])
  with b show "\<exists>body. body \<in> set contents
               \<and> body \<noteq> None
               \<and> image_open p (the body) = Inr (hd images)
               \<and> async_camera_image p w self =
                   \<lparr>returned = Inr body, camera = self\<lparr>last_image := body\<rparr>,
                    states_after = states w,
                    fetched = timestamps_loop (now - minutes 50) now []\<rparr>"
    by (intro exI [of _ "Some body"]) simp
qed

theorem few_frames_witness:
  "async_camera_image demo_lib
     \<lparr>clock = demo_clock, http_get = (\<lambda>url. Raises TimeoutException), states = Map.empty\<rparr>
     (demo_camera\<lparr>last_image := Some ''old''\<rparr>) =
   \<lparr>returned = Inr (Some ''old''), camera = demo_camera\<lparr>last_image := Some ''old''\<rparr>,
    states_after = Map.empty,
    fetched = timestamps_loop (63839664300000000 - minutes 50) 63839664300000000 []\<rparr>
   \<and> (\<exists>body. body \<noteq> None
         \<and> async_camera_image demo_lib
              \<lparr>clock = demo_clock,
               http_get = (\<lambda>url. if url = ''r/00.png'' then Response 200 ''png''
                                 else Response 404 []),
               states = Map.empty\<rparr>
              demo_camera =
            \<lparr>returned = Inr body, camera = demo_camera\<lparr>last_image := body\<rparr>,
             states_after = Map.empty,
             fetched = timestamps_loop (63839664300000000 - minutes 50) 63839664300000000 []\<rparr>)"
proof -
  let ?w = "\<lparr>clock = demo_clock, http_get = (\<lambda>url. Raises TimeoutException),
             states = Map.empty\<rparr>"
  let ?s = "demo_camera\<lparr>last_image := Some ''old''\<rparr>"
  let ?w1 = "\<lparr>clock = demo_clock,
               http_get = (\<lambda>url. if url = ''r/00.png'' then Response 200 ''png''
                                 else Response 404 []),
               states = Map.empty\<rparr>"
  let ?ts = "timestamps_loop (63839664300000000 - minutes 50) 63839664300000000 []"
  have now: "ceil_dt (clock ?w) td = Inr 63839664300000000" using demo_now by simp
  have ng: "\<not> (last_image_time ?s = Some (63839664300000000 - td) \<and> last_image ?s \<noteq> None)"
    by (simp add: demo_camera_def init_def)
  have g: "gather (map (get_image demo_lib ?w) ?ts) = Inr (map (\<lambda>t. None) ?ts)"
    by (rule demo_gather_none)
  have il: "images_loop demo_lib (map (\<lambda>t. None) ?ts) ?s [] = (Inr [], ?s)"
    by (simp add: images_loop_none)
  from few_frames [OF now ng g il] have 0: "async_camera_image demo_lib ?w ?s =
   \<lparr>returned = Inr (Some ''old''), camera = ?s, states_after = Map.empty, fetched = ?ts\<rparr>"
    by simp
  have now1: "ceil_dt (clock ?w1) td = Inr 63839664300000000" using demo_now by simp
  have g1: "gather (map (get_image demo_lib ?w1) ?ts) =
      Inr [None, None, None, None, None, None, None, None, None, Some ''png'']"
    by (rule demo_gather_one)
  have il1: "images_loop demo_lib
      [None, None, None, None, None, None, None, None, None, Some ''png''] demo_camera []
     = (Inr [(3, [])], demo_camera\<lparr>last_image := Some ''png''\<rparr>)"
    by (simp add: demo_lib_def)
  from few_frames [OF now1 demo_gate_open g1 il1, THEN conjunct2]
  have 1: "\<exists>body. body \<noteq> None
         \<and> async_camera_image demo_lib ?w1 demo_camera =
            \<lparr>returned = Inr body, camera = demo_camera\<lparr>last_image := body\<rparr>,
             states_after = Map.empty, fetched = ?ts\<rparr>"
    by auto
  from 0 1 show ?thesis by (rule conjI)
qed

text \<open>
  C4 as it was stated fails with one frame: with \<open>''old''\<close> cached and one bucket
  answering \<open>''png''\<close>, one image is opened, and the call stores and returns \<open>''png''\<close>.
\<close>

theorem few_frames_counterexample:
  "gather (map (get_image demo_lib
        \<lparr>clock = demo_clock,
         http_get = (\<lambda>url. if url = ''r/00.png'' then Response 200 ''png'' else Response 404 []),
         states = Map.empty\<rparr>)
        (timestamps_loop (63839664300000000 - minutes 50) 63839664300000000 [])) =
     Inr [None, None, None, None, None, None, None, None, None, Some ''png'']
   \<and> fst (images_loop demo_lib
        [None, None, None, None, None, None, None, None, None, Some ''png'']
        (demo_camera\<lparr>last_image := Some ''old''\<rparr>) []) = Inr [(3, [])]
   \<and> last_image (demo_camera\<lparr>last_image := Some ''old''\<rparr>) = Some ''old''
   \<and> returned (async_camera_image demo_lib
        \<lparr>clock = demo_clock,
         http_get = (\<lambda>url. if url = ''r/00.png'' then Response 200 ''png'' else Response 404 []),
         states = Map.empty\<rparr>
        (demo_camera\<lparr>last_image := Some ''old''\<rparr>)) = Inr (Some ''png'')
   \<and> last_image (camera (async_camera_image demo_lib
        \<lparr>clock = demo_clock,
         http_get = (\<lambda>url. if url = ''r/00.png'' then Response 200 ''png'' else Response 404 []),
         states = Map.empty\<rparr>
        (demo_camera\<lparr>last_image := Some ''old''\<rparr>))) = Some ''png''"
proof -
  let ?w = "\<lparr>clock = demo_clock,
         http_get = (\<lambda>url. if url = ''r/00.png'' then Response 200 ''png'' else Response 404 []),
         states = Map.empty\<rparr>"
  let ?s = "demo_camera\<lparr>last_image := Some ''old''\<rparr>"
  have now: "ceil_dt (clock ?w) td = Inr 63839664300000000" using demo_now by simp
  have ng: "\<not> (last_image_time ?s = Some (63839664300000000 - td) \<and> last_image ?s \<noteq> None)"
    by (simp add: demo_camera_def init_def)
  have il: "images_loop demo_lib
      [None, None, None, None, None, None, None, None, None, Some ''png''] ?s []
     = (Inr [(3, [])], ?s\<lparr>last_image := Some ''png''\<rparr>)"
    by (simp add: demo_lib_def)
  have r: "async_camera_image demo_lib ?w ?s =
      \<lparr>returned = Inr (Some ''png''), camera = ?s\<lparr>last_image := Some ''png''\<rparr>,
       states_after = Map.empty,
       fetched = timestamps_loop (63839664300000000 - minutes 50) 63839664300000000 []\<rparr>"
    unfolding cycle_eq [OF now ng demo_gather_one] il by simp
  have 1: "fst (images_loop demo_lib
        [None, None, None, None, None, None, None, None, None, Some ''png''] ?s [])
      = Inr [(3, [])]"
    by (simp only: il fst_conv)
  have 2: "last_image ?s = Some ''old''" by simp
  have 3: "returned (async_camera_image demo_lib ?w ?s) = Inr (Some ''png'')"
    by (simp only: r) simp
  have 4: "last_image (camera (async_camera_image demo_lib ?w ?s)) = Some ''png''"
    by (simp only: r) simp
  from demo_gather_one [of demo_clock Map.empty] 1 2 3 4 show ?thesis by (intro conjI)
qed

section \<open>Drawing and saving\<close>

lemma images_loop_last:
  "images_loop p cs self imgs = (Inr images, self1) \<Longrightarrow> filter (\<lambda>c. c \<noteq> None) cs \<noteq> [] \<Longrightarrow>
     last_image self1 = last (filter (\<lambda>c. c \<noteq> None) cs)"
proof (induction p cs self imgs rule: images_loop.induct)
  case (1 p self images)
  then show ?case by simp
next
  case (2 p contents self images)
  then show ?case by simp
next
  case (3 p content contents self imgs)
  from "3.prems"(1) obtain img where img: "image_open p content = Inr img"
    by (cases "image_open p content") (auto simp: Let_def)
  with "3.prems"(1) have rest:
    "images_loop p contents (self\<lparr>last_image := Some content\<rparr>) (imgs @ [img]) = (Inr images, self1)"
    by (simp add: Let_def)
  show ?case
  proof (cases "filter (\<lambda>c. c \<noteq> None) contents = []")
    case True
    then have "\<forall>c\<in>set contents. c = None" by (simp add: filter_empty_conv)
    from images_loop_none [OF this, of p "self\<lparr>last_image := Some content\<rparr>" "imgs @ [img]"] rest
    have "self1 = self\<lparr>last_image := Some content\<rparr>" by simp
    with True show ?thesis by simp
  next
    case False
    from "3.IH" [OF refl img rest False] False show ?thesis by simp
  qed
qed

lemma frames_loop_fails:
  assumes k: "k < length xs" and e: "bar p n (fst (xs ! k)) (snd (xs ! k)) = Inl e"
    and before: "\<forall>i<k. \<exists>d. bar p n (fst (xs ! i)) (snd (xs ! i)) = Inr d"
  shows "frames_loop p n xs acc = Inl e"
proof (cases "frames_loop p n xs acc")
  case (Inr fs)
  then obtain ds where "list_all2 (\<lambda>x d. bar p n (fst x) (snd x) = Inr d) xs ds"
    by (auto simp: frames_loop_Inr)
  with k have "bar p n (fst (xs ! k)) (snd (xs ! k)) = Inr (ds ! k)"
    by (simp add: list_all2_conv_all_nth)
  with e show ?thesis by simp
next
  case (Inl e')
  from frames_loop_Inl [OF this] obtain k' where
    k': "k' < length xs" "bar p n (fst (xs ! k')) (snd (xs ! k')) = Inl e'"
        "\<forall>i<k'. \<exists>d. bar p n (fst (xs ! i)) (snd (xs ! i)) = Inr d"
    by blast
  have "k' = k"
  proof (rule ccontr)
    assume "k' \<noteq> k"
    then consider "k' < k" | "k < k'" by arith
    then show False
    proof cases
      case 1
      with before k'(2) show False by auto
    next
      case 2
      with k'(3) e show False by auto
    qed
  qed
  with k'(2) e have "e' = e" by simp
  with Inl show ?thesis by simp
qed

lemma animation_fails:
  assumes "k < length images" and "bar p (length images) k (images ! k) = Inl e"
    and "\<forall>i<k. \<exists>d. bar p (length images) i (images ! i) = Inr d"
  shows "animation p images = Inl e"
proof -
  have "frames_loop p (length images) (enumerate 0 images) [] = Inl e"
    using assms by (intro frames_loop_fails [of k]) (simp_all add: nth_enumerate_eq)
  then show ?thesis by (simp add: animation_def)
qed

lemma animation_drawn:
  assumes "images \<noteq> []" and "length fs = length images"
    and "\<forall>i<length images. bar p (length images) i (images ! i) = Inr (fs ! i)"
  shows "animation p images = save_gif p (hd fs) (tl fs)"
proof -
  from assms(2,3) have fl: "frames_loop p (length images) (enumerate 0 images) [] = Inr fs"
    by (simp add: frames_loop_Inr drawn_enumerate)
  from assms(1,2) obtain f rest where "fs = f # rest" by (cases fs) auto
  with fl show ?thesis by (simp add: animation_def)
qed

lemma stored_animation:
  assumes "ceil_dt (clock w) td = Inr now"
    and "\<not> (last_image_time self = Some (now - td) \<and> last_image self \<noteq> None)"
    and "gather (map (get_image p w) (timestamps_loop (now - minutes 50) now [])) = Inr contents"
    and "images_loop p contents self [] = (Inr images, self1)"
    and "2 \<le> length images"
    and "animation p images = Inr buff"
  shows "last_image (camera (async_camera_image p w self)) = Some buff
     \<and> (length images < 10 \<or> states w (entity_id self) \<noteq> None \<longrightarrow>
          returned (async_camera_image p w self) = Inr (Some buff))
     \<and> (length images = 10 \<and> states w (entity_id self) = None \<longrightarrow>
          returned (async_camera_image p w self) = Inl AttributeError)"
proof -
  have eid: "entity_id self1 = entity_id self"
    using images_loop_entity [OF assms(4)] by simp
  show ?thesis
  proof (cases "length images = 10")
    case True
    have r: "async_camera_image p w self =
        all_fetched p w (self1\<lparr>last_image := Some buff\<rparr>)
          (timestamps_loop (now - minutes 50) now [])"
      using assms(4,6) True by (simp add: cycle_eq [OF assms(1,2,3)])
    show ?thesis
      using True eid
      by (auto simp: r all_fetched_camera all_fetched_returned split: option.splits)
  next
    case False
    have r: "async_camera_image p w self =
        \<lparr>returned = Inr (Some buff), camera = self1\<lparr>last_image := Some buff\<rparr>,
         states_after = states w, fetched = timestamps_loop (now - minutes 50) now []\<rparr>"
      using assms(4,5,6) False by (simp add: cycle_eq [OF assms(1,2,3)])
    show ?thesis using False by (simp add: r)
  qed
qed

lemma failed_animation:
  assumes "ceil_dt (clock w) td = Inr now"
    and "\<not> (last_image_time self = Some (now - td) \<and> last_image self \<noteq> None)"
    and "gather (map (get_image p w) (timestamps_loop (now - minutes 50) now [])) = Inr contents"
    and "images_loop p contents self [] = (Inr images, self1)"
    and "2 \<le> length images"
    and "animation p images = Inl e"
  shows "async_camera_image p w self =
     \<lparr>returned = Inl e, camera = self1, states_after = states w,
      fetched = timestamps_loop (now - minutes 50) now []\<rparr>
     \<and> last_image self1 = last (filter (\<lambda>c. c \<noteq> None) contents)
     \<and> last_image self1 \<noteq> None"
proof -
  have r: "async_camera_image p w self =
     \<lparr>returned = Inl e, camera = self1, states_after = states w,
      fetched = timestamps_loop (now - minutes 50) now []\<rparr>"
    using assms(4,5,6) by (simp add: cycle_eq [OF assms(1,2,3)])
  from images_loop_length [OF assms(4)] assms(5)
  have ne: "filter (\<lambda>c. c \<noteq> None) contents \<noteq> []" by auto
  then have "\<exists>c\<in>set contents. c \<noteq> None" by (auto simp: filter_empty_conv)
  from images_loop_sets [OF assms(4) this] images_loop_last [OF assms(4) ne] r
  show ?thesis by simp
qed

section \<open>The progress bars\<close>

lemma progress_first: "progress 0 n = 0"
  by (simp add: progress_def)

lemma progress_last: "2 \<le> n \<Longrightarrow> progress (n - 1) n = 1"
  by (simp add: progress_def of_nat_diff)

lemma progress_quotient: "1 \<le> n \<Longrightarrow> progress i n = of_nat i / of_nat (n - 1)"
  by (simp add: progress_def of_nat_diff)

lemma progress_ten:
  "map (\<lambda>i. progress i 10) [0, 1, 2, 3, 4, 5, 6, 7, 8, 9] =
     [0, 1 / 9, 2 / 9, 1 / 3, 4 / 9, 5 / 9, 2 / 3, 7 / 9, 8 / 9, 1]"
  by (simp add: progress_def)

lemma upt_ten: "[0..<10] = [0, 1, 2, 3, 4, 5, 6, 7, 8, 9]"
  by (simp add: upt_rec)

lemma demo_gather_three:
  "gather (map (get_image demo_lib
      \<lparr>clock = c,
       http_get = (\<lambda>url. if url = ''r/50.png'' \<or> url = ''r/55.png'' \<or> url = ''r/00.png''
                         then Response 200 ''ninebytes'' else Response 404 []),
       states = st\<rparr>)
     (timestamps_loop (63839664300000000 - minutes 50) 63839664300000000 [])) =
   Inr [None, None, None, None, None, None, None,
        Some ''ninebytes'', Some ''ninebytes'', Some ''ninebytes'']"
  using demo_urls by (simp add: demo_window get_image_eq content_def)

lemma demo_gather_truncated:
  "gather (map (get_image demo_lib
      \<lparr>clock = c,
       http_get = (\<lambda>url. if url = ''r/55.png'' then Response 200 ''png''
                         else if url = ''r/00.png'' then Response 200 ''trunc''
                         else Response 404 []),
       states = st\<rparr>)
     (timestamps_loop (63839664300000000 - minutes 50) 63839664300000000 [])) =
   Inr [None, None, None, None, None, None, None, None, Some ''png'', Some ''trunc'']"
  using demo_urls by (simp add: demo_window get_image_eq content_def)

text \<open>
  C6, as the code has it. In a cycle whose fetches join and that opens \<open>n \<ge> 2\<close> images,
  the progress of the frame at index \<open>i\<close> is \<open>i / (n - 1)\<close>: 0 for the first frame, 1 for the
  last, and 0, 1/9, 2/9, ..., 1 in this order for ten frames. The call made on frame \<open>i\<close>
  draws a gray line of width 3 along its top row from \<open>x = 0\<close> to \<open>x = progress * w\<close>, where
  \<open>w\<close> is the width of the frame. When each of these calls succeeds, the frames they give,
  in this order, are the ones saved, and the bytes of the save are the stored last image
  after the call. When the first call to fail is the one on frame \<open>k\<close>, its exception
  leaves \<^verbatim>\<open>async_camera_image\<close>, and the camera is as the decode loop left it.
\<close>

theorem progress_bars:
  assumes "ceil_dt (clock w) td = Inr now"
    and "\<not> (last_image_time self = Some (now - td) \<and> last_image self \<noteq> None)"
    and "gather (map (get_image p w) (timestamps_loop (now - minutes 50) now [])) = Inr contents"
    and "images_loop p contents self [] = (Inr images, self1)"
    and "2 \<le> length images"
  shows "(\<forall>i < length images. progress i (length images) = of_nat i / of_nat (length images - 1))
     \<and> progress 0 (length images) = 0
     \<and> progress (length images - 1) (length images) = 1
     \<and> (length images = 10 \<longrightarrow>
          map (\<lambda>i. progress i (length images)) [0..<10] =
            [0, 1 / 9, 2 / 9, 1 / 3, 4 / 9, 5 / 9, 2 / 3, 7 / 9, 8 / 9, 1])
     \<and> (\<forall>frames buff.
          length frames = length images
          \<and> (\<forall>i < length images.
                draw_line p (images ! i)
                  (0, 0, progress i (length images) * of_nat (fst (im_size p (images ! i))), 0)
                  ''gray'' 3 = Inr (frames ! i))
          \<and> save_gif p (hd frames) (tl frames) = Inr buff \<longrightarrow>
          last_image (camera (async_camera_image p w self)) = Some buff)
     \<and> (\<forall>k e.
          k < length images
          \<and> draw_line p (images ! k)
                (0, 0, progress k (length images) * of_nat (fst (im_size p (images ! k))), 0)
                ''gray'' 3 = Inl e
          \<and> (\<forall>i < k. \<exists>frame.
                draw_line p (images ! i)
                  (0, 0, progress i (length images) * of_nat (fst (im_size p (images ! i))), 0)
                  ''gray'' 3 = Inr frame) \<longrightarrow>
          async_camera_image p w self =
            \<lparr>returned = Inl e, camera = self1, states_after = states w,
             fetched = timestamps_loop (now - minutes 50) now []\<rparr>)"
proof -
  from assms(5) have ne: "images \<noteq> []" by auto
  have 1: "\<forall>i < length images. progress i (length images) = of_nat i / of_nat (length images - 1)"
    using assms(5) by (simp add: progress_quotient)
  have 4: "length images = 10 \<longrightarrow>
          map (\<lambda>i. progress i (length images)) [0..<10] =
            [0, 1 / 9, 2 / 9, 1 / 3, 4 / 9, 5 / 9, 2 / 3, 7 / 9, 8 / 9, 1]"
    using progress_ten by (simp add: upt_ten)
  have 5: "\<forall>frames buff.
          length frames = length images
          \<and> (\<forall>i < length images.
                draw_line p (images ! i)
                  (0, 0, progress i (length images) * of_nat (fst (im_size p (images ! i))), 0)
                  ''gray'' 3 = Inr (frames ! i))
          \<and> save_gif p (hd frames) (tl frames) = Inr buff \<longrightarrow>
          last_image (camera (async_camera_image p w self)) = Some buff"
  proof (intro allI impI)
    fix frames buff
    assume a: "length frames = length images
          \<and> (\<forall>i < length images.
                draw_line p (images ! i)
                  (0, 0, progress i (length images) * of_nat (fst (im_size p (images ! i))), 0)
                  ''gray'' 3 = Inr (frames ! i))
          \<and> save_gif p (hd frames) (tl frames) = Inr buff"
    then have "animation p images = save_gif p (hd frames) (tl frames)"
      by (intro animation_drawn [OF ne]) (simp_all add: bar_def)
    with a have "animation p images = Inr buff" by simp
    from stored_animation [OF assms this]
    show "last_image (camera (async_camera_image p w self)) = Some buff" by simp
  qed
  have 6: "\<forall>k e.
          k < length images
          \<and> draw_line p (images ! k)
                (0, 0, progress k (length images) * of_nat (fst (im_size p (images ! k))), 0)
                ''gray'' 3 = Inl e
          \<and> (\<forall>i < k. \<exists>frame.
                draw_line p (images ! i)
                  (0, 0, progress i (length images) * of_nat (fst (im_size p (images ! i))), 0)
                  ''gray'' 3 = Inr frame) \<longrightarrow>
          async_camera_image p w self =
            \<lparr>returned = Inl e, camera = self1, states_after = states w,
             fetched = timestamps_loop (now - minutes 50) now []\<rparr>"
  proof (intro allI impI)
    fix k e
    assume a: "k < length images
          \<and> draw_line p (images ! k)
                (0, 0, progress k (length images) * of_nat (fst (im_size p (images ! k))), 0)
                ''gray'' 3 = Inl e
          \<and> (\<forall>i < k. \<exists>frame.
                draw_line p (images ! i)
                  (0, 0, progress i (length images) * of_nat (fst (im_size p (images ! i))), 0)
                  ''gray'' 3 = Inr frame)"
    then have "animation p images = Inl e"
      by (intro animation_fails [of k]) (simp_all add: bar_def)
    from failed_animation [OF assms this]
    show "async_camera_image p w self =
            \<lparr>returned = Inl e, camera = self1, states_after = states w,
             fetched = timestamps_loop (now - minutes 50) now []\<rparr>"
      by simp
  qed
  from 1 progress_first [of "length images"] progress_last [OF assms(5)] 4 5 6
  show ?thesis by (intro conjI)
qed

theorem progress_bars_witness:
  "last_image (camera (async_camera_image demo_lib
      \<lparr>clock = demo_clock,
       http_get = (\<lambda>url. if url = ''r/50.png'' \<or> url = ''r/55.png'' \<or> url = ''r/00.png''
                         then Response 200 ''ninebytes'' else Response 404 []),
       states = Map.empty\<rparr>
      demo_camera)) = Some ''FFF''
   \<and> draw_line demo_lib (9, []) (0, 0, progress 1 3 * 9, 0) ''gray'' 3
        = Inr (9, [(0, 0, 9 / 2, 0)])"
proof -
  let ?w = "\<lparr>clock = demo_clock,
       http_get = (\<lambda>url. if url = ''r/50.png'' \<or> url = ''r/55.png'' \<or> url = ''r/00.png''
                         then Response 200 ''ninebytes'' else Response 404 []),
       states = Map.empty\<rparr>"
  define images :: "picture list" where "images = [(9, []), (9, []), (9, [])]"
  define frames :: "picture list" where
    "frames = [(9, [(0, 0, 0, 0)]), (9, [(0, 0, 9 / 2, 0)]), (9, [(0, 0, 9, 0)])]"
  have now: "ceil_dt (clock ?w) td = Inr 63839664300000000" using demo_now by simp
  have il: "images_loop demo_lib
      [None, None, None, None, None, None, None,
       Some ''ninebytes'', Some ''ninebytes'', Some ''ninebytes''] demo_camera []
     = (Inr images, demo_camera\<lparr>last_image := Some ''ninebytes''\<rparr>)"
    by (simp add: demo_lib_def images_def)
  have len: "2 \<le> length images" by (simp add: images_def)
  have d: "length frames = length images
          \<and> (\<forall>i < length images.
                draw_line demo_lib (images ! i)
                  (0, 0, progress i (length images)
                           * of_nat (fst (im_size demo_lib (images ! i))), 0)
                  ''gray'' 3 = Inr (frames ! i))
          \<and> save_gif demo_lib (hd frames) (tl frames) = Inr ''FFF''"
    by (auto simp: images_def frames_def demo_lib_def progress_def less_Suc_eq
        numeral_3_eq_3)
  note t = progress_bars [OF now demo_gate_open demo_gather_three il len]
  from t [THEN conjunct2, THEN conjunct2, THEN conjunct2, THEN conjunct2, THEN conjunct1,
      rule_format, OF d]
  have 1: "last_image (camera (async_camera_image demo_lib ?w demo_camera)) = Some ''FFF''" .
  have 2: "draw_line demo_lib (9, []) (0, 0, progress 1 3 * 9, 0) ''gray'' 3
        = Inr (9, [(0, 0, 9 / 2, 0)])"
    by (simp add: demo_lib_def progress_def)
  from 1 2 show ?thesis by (rule conjI)
qed

text \<open>
  C6 as it was stated fails where drawing fails: of two opened images the second is a
  truncated file, the call that draws its bar raises, the exception leaves the cycle, and
  the stored last image is the truncated body.
\<close>

theorem progress_bars_counterexample:
  "gather (map (get_image demo_lib
      \<lparr>clock = demo_clock,
       http_get = (\<lambda>url. if url = ''r/55.png'' then Response 200 ''png''
                         else if url = ''r/00.png'' then Response 200 ''trunc''
                         else Response 404 []),
       states = Map.empty\<rparr>)
     (timestamps_loop (63839664300000000 - minutes 50) 63839664300000000 [])) =
     Inr [None, None, None, None, None, None, None, None, Some ''png'', Some ''trunc'']
   \<and> fst (images_loop demo_lib
        [None, None, None, None, None, None, None, None, Some ''png'', Some ''trunc'']
        demo_camera []) = Inr [(3, []), (5, [])]
   \<and> draw_line demo_lib (5, []) (0, 0, progress 1 2 * 5, 0) ''gray'' 3 = Inl OSError
   \<and> returned (async_camera_image demo_lib
        \<lparr>clock = demo_clock,
         http_get = (\<lambda>url. if url = ''r/55.png'' then Response 200 ''png''
                           else if url = ''r/00.png'' then Response 200 ''trunc''
                           else Response 404 []),
         states = Map.empty\<rparr>
        demo_camera) = Inl OSError
   \<and> last_image (camera (async_camera_image demo_lib
        \<lparr>clock = demo_clock,
         http_get = (\<lambda>url. if url = ''r/55.png'' then Response 200 ''png''
                           else if url = ''r/00.png'' then Response 200 ''trunc''
                           else Response 404 []),
         states = Map.empty\<rparr>
        demo_camera)) = Some ''trunc''"
proof -
  let ?w = "\<lparr>clock = demo_clock,
         http_get = (\<lambda>url. if url = ''r/55.png'' then Response 200 ''png''
                           else if url = ''r/00.png'' then Response 200 ''trunc''
                           else Response 404 []),
         states = Map.empty\<rparr>"
  have now: "ceil_dt (clock ?w) td = Inr 63839664300000000" using demo_now by simp
  have il: "images_loop demo_lib
      [None, None, None, None, None, None, None, None, Some ''png'', Some ''trunc'']
      demo_camera []
     = (Inr [(3, []), (5, [])], demo_camera\<lparr>last_image := Some ''trunc''\<rparr>)"
    by (simp add: demo_lib_def)
  have an: "animation demo_lib [(3, []), (5, [])] = Inl OSError"
    by (simp add: animation_def enumerate_eq_zip demo_lib_def upt_rec)
  have r: "async_camera_image demo_lib ?w demo_camera =
      \<lparr>returned = Inl OSError, camera = demo_camera\<lparr>last_image := Some ''trunc''\<rparr>,
       states_after = Map.empty,
       fetched = timestamps_loop (63839664300000000 - minutes 50) 63839664300000000 []\<rparr>"
    unfolding cycle_eq [OF now demo_gate_open demo_gather_truncated] il by (simp add: an)
  have 1: "fst (images_loop demo_lib
        [None, None, None, None, None, None, None, None, Some ''png'', Some ''trunc'']
        demo_camera []) = Inr [(3, []), (5, [])]"
    by (simp only: il fst_conv)
  have 2: "draw_line demo_lib (5, []) (0, 0, progress 1 2 * 5, 0) ''gray'' 3 = Inl OSError"
    by (simp add: demo_lib_def)
  have 3: "returned (async_camera_image demo_lib ?w demo_camera) = Inl OSError"
    by (simp only: r) simp
  have 4: "last_image (camera (async_camera_image demo_lib ?w demo_camera)) = Some ''trunc''"
    by (simp only: r) simp
  from demo_gather_truncated [of demo_clock Map.empty] 1 2 3 4 show ?thesis by (intro conjI)
qed

section \<open>Cycles with two frames or more\<close>

lemma demo_images_ten:
  "images_loop demo_lib (map (\<lambda>t. Some ''png'')
      (timestamps_loop (63839664300000000 - minutes 50) 63839664300000000 [])) demo_camera [] =
   (Inr [(3, []), (3, []), (3, []), (3, []), (3, []), (3, []), (3, []), (3, []), (3, []),
         (3, [])],
    demo_camera\<lparr>last_image := Some ''png''\<rparr>)"
  by (simp only: demo_window) (simp add: demo_lib_def)

lemma demo_animation_ten:
  "animation demo_lib
      [(3, []), (3, []), (3, []), (3, []), (3, []), (3, []), (3, []), (3, []), (3, []), (3, [])]
      = Inr ''FFFFFFFFFF''"
  by (simp add: animation_def enumerate_eq_zip demo_lib_def upt_ten)

text \<open>
  C7, as the code has it. Take a cycle whose fetches join and whose fetched bodies all open
  as images, two or more of them. Drawing and saving succeed exactly when every bar is
  drawn and the save of the drawn frames returns bytes. When they do, these bytes replace
  the stored last image, whether all ten buckets were fetched or not; they are the value
  returned when fewer than ten frames were opened, and with ten frames when the host has a
  state for the entity; with ten frames and no state for the entity, the read of that
  state raises AttributeError after the animation was stored. When a draw or the save
  raises, the exception leaves the call, and the stored last image is the last fetched
  body, not an animation.
\<close>

theorem fresh_animation:
  assumes "ceil_dt (clock w) td = Inr now"
    and "\<not> (last_image_time self = Some (now - td) \<and> last_image self \<noteq> None)"
    and "gather (map (get_image p w) (timestamps_loop (now - minutes 50) now [])) = Inr contents"
    and "images_loop p contents self [] = (Inr images, self1)"
    and "2 \<le> length images"
  shows "(\<forall>buff. animation p images = Inr buff \<longleftrightarrow>
            (\<exists>frames. length frames = length images
               \<and> (\<forall>i<length images. bar p (length images) i (images ! i) = Inr (frames ! i))
               \<and> save_gif p (hd frames) (tl frames) = Inr buff))
     \<and> (\<forall>buff. animation p images = Inr buff \<longrightarrow>
            last_image (camera (async_camera_image p w self)) = Some buff
            \<and> (length images < 10 \<or> states w (entity_id self) \<noteq> None \<longrightarrow>
                 returned (async_camera_image p w self) = Inr (Some buff))
            \<and> (length images = 10 \<and> states w (entity_id self) = None \<longrightarrow>
                 returned (async_camera_image p w self) = Inl AttributeError))
     \<and> (\<forall>e. animation p images = Inl e \<longrightarrow>
            returned (async_camera_image p w self) = Inl e
            \<and> camera (async_camera_image p w self) = self1
            \<and> last_image self1 = last (filter (\<lambda>c. c \<noteq> None) contents)
            \<and> last_image self1 \<noteq> None)"
proof -
  from assms(5) have ne: "images \<noteq> []" by auto
  have 1: "\<forall>buff. animation p images = Inr buff \<longleftrightarrow>
            (\<exists>frames. length frames = length images
               \<and> (\<forall>i<length images. bar p (length images) i (images ! i) = Inr (frames ! i))
               \<and> save_gif p (hd frames) (tl frames) = Inr buff)"
    using animation_Inr [OF ne, of p] by blast
  have 2: "\<forall>buff. animation p images = Inr buff \<longrightarrow>
            last_image (camera (async_camera_image p w self)) = Some buff
            \<and> (length images < 10 \<or> states w (entity_id self) \<noteq> None \<longrightarrow>
                 returned (async_camera_image p w self) = Inr (Some buff))
            \<and> (length images = 10 \<and> states w (entity_id self) = None \<longrightarrow>
                 returned (async_camera_image p w self) = Inl AttributeError)"
    using stored_animation [OF assms] by blast
  have 3: "\<forall>e. animation p images = Inl e \<longrightarrow>
            returned (async_camera_image p w self) = Inl e
            \<and> camera (async_camera_image p w self) = self1
            \<and> last_image self1 = last (filter (\<lambda>c. c \<noteq> None) contents)
            \<and> last_image self1 \<noteq> None"
  proof (intro allI impI)
    fix e assume "animation p images = Inl e"
    from failed_animation [OF assms this]
    have r: "async_camera_image p w self =
        \<lparr>returned = Inl e, camera = self1, states_after = states w,
         fetched = timestamps_loop (now - minutes 50) now []\<rparr>"
      and l: "last_image self1 = last (filter (\<lambda>c. c \<noteq> None) contents)"
      and n: "last_image self1 \<noteq> None"
      by blast+
    have "returned (async_camera_image p w self) = Inl e"
      and "camera (async_camera_image p w self) = self1"
      by (simp_all only: r) simp_all
    with l n show "returned (async_camera_image p w self) = Inl e
            \<and> camera (async_camera_image p w self) = self1
            \<and> last_image self1 = last (filter (\<lambda>c. c \<noteq> None) contents)
            \<and> last_image self1 \<noteq> None"
      by (intro conjI)
  qed
  from 1 2 3 show ?thesis by (intro conjI)
qed

theorem fresh_animation_witness:
  "returned (async_camera_image demo_lib
      \<lparr>clock = demo_clock, http_get = (\<lambda>url. Response 200 ''png''),
       states = [''camera.nea_rain_map'' \<mapsto> \<lparr>state = ''idle'', attributes = Map.empty\<rparr>]\<rparr>
      demo_camera) = Inr (Some ''FFFFFFFFFF'')"
proof -
  let ?w = "\<lparr>clock = demo_clock, http_get = (\<lambda>url. Response 200 ''png''),
       states = [''camera.nea_rain_map'' \<mapsto> \<lparr>state = ''idle'', attributes = Map.empty\<rparr>]\<rparr>"
  have now: "ceil_dt (clock ?w) td = Inr 63839664300000000" using demo_now by simp
  have len: "2 \<le> length [(3::nat, [] :: (rat \<times> rat \<times> rat \<times> rat) list), (3, []), (3, []),
      (3, []), (3, []), (3, []), (3, []), (3, []), (3, []), (3, [])]"
    by simp
  note t = fresh_animation [OF now demo_gate_open demo_gather_same demo_images_ten len]
  from t [THEN conjunct2, THEN conjunct1, rule_format, OF demo_animation_ten]
  show ?thesis by (simp add: demo_entity)
qed

text \<open>
  C7 as it was stated fails in two ways. On a full cycle when the host has no state for the
  entity, ten images are opened and the animation is stored, and the call raises
  AttributeError where it should return the animation. And when the second of two opened
  images is a truncated file, drawing raises: no animation is stored or returned.
\<close>

theorem fresh_animation_counterexample:
  "gather (map (get_image demo_lib
        \<lparr>clock = demo_clock, http_get = (\<lambda>url. Response 200 ''png''), states = Map.empty\<rparr>)
        (timestamps_loop (63839664300000000 - minutes 50) 63839664300000000 [])) =
     Inr (map (\<lambda>t. Some ''png'')
        (timestamps_loop (63839664300000000 - minutes 50) 63839664300000000 []))
   \<and> fst (images_loop demo_lib (map (\<lambda>t. Some ''png'')
        (timestamps_loop (63839664300000000 - minutes 50) 63839664300000000 []))
        demo_camera []) =
     Inr [(3, []), (3, []), (3, []), (3, []), (3, []), (3, []), (3, []), (3, []), (3, []),
          (3, [])]
   \<and> returned (async_camera_image demo_lib
        \<lparr>clock = demo_clock, http_get = (\<lambda>url. Response 200 ''png''), states = Map.empty\<rparr>
        demo_camera) = Inl AttributeError
   \<and> last_image (camera (async_camera_image demo_lib
        \<lparr>clock = demo_clock, http_get = (\<lambda>url. Response 200 ''png''), states = Map.empty\<rparr>
        demo_camera)) = Some ''FFFFFFFFFF''
   \<and> fst (images_loop demo_lib
        [None, None, None, None, None, None, None, None, Some ''png'', Some ''trunc'']
        demo_camera []) = Inr [(3, []), (5, [])]
   \<and> returned (async_camera_image demo_lib
        \<lparr>clock = demo_clock,
         http_get = (\<lambda>url. if url = ''r/55.png'' then Response 200 ''png''
                           else if url = ''r/00.png'' then Response 200 ''trunc''
                           else Response 404 []),
         states = [''camera.nea_rain_map'' \<mapsto> \<lparr>state = ''idle'', attributes = Map.empty\<rparr>]\<rparr>
        demo_camera) = Inl OSError
   \<and> last_image (camera (async_camera_image demo_lib
        \<lparr>clock = demo_clock,
         http_get = (\<lambda>url. if url = ''r/55.png'' then Response 200 ''png''
                           else if url = ''r/00.png'' then Response 200 ''trunc''
                           else Response 404 []),
         states = [''camera.nea_rain_map'' \<mapsto> \<lparr>state = ''idle'', attributes = Map.empty\<rparr>]\<rparr>
        demo_camera)) = Some ''trunc''"
proof -
  let ?w = "\<lparr>clock = demo_clock, http_get = (\<lambda>url. Response 200 ''png''),
             states = Map.empty\<rparr>"
  let ?wt = "\<lparr>clock = demo_clock,
         http_get = (\<lambda>url. if url = ''r/55.png'' then Response 200 ''png''
                           else if url = ''r/00.png'' then Response 200 ''trunc''
                           else Response 404 []),
         states = [''camera.nea_rain_map'' \<mapsto> \<lparr>state = ''idle'', attributes = Map.empty\<rparr>]\<rparr>"
  have now: "ceil_dt (clock ?w) td = Inr 63839664300000000" using demo_now by simp
  have nowt: "ceil_dt (clock ?wt) td = Inr 63839664300000000" using demo_now by simp
  have r: "async_camera_image demo_lib ?w demo_camera =
      all_fetched demo_lib ?w (demo_camera\<lparr>last_image := Some ''FFFFFFFFFF''\<rparr>)
        (timestamps_loop (63839664300000000 - minutes 50) 63839664300000000 [])"
    unfolding cycle_eq [OF now demo_gate_open demo_gather_same] demo_images_ten
    by (simp add: demo_animation_ten)
  have 1: "fst (images_loop demo_lib (map (\<lambda>t. Some ''png'')
        (timestamps_loop (63839664300000000 - minutes 50) 63839664300000000 []))
        demo_camera []) =
     Inr [(3, []), (3, []), (3, []), (3, []), (3, []), (3, []), (3, []), (3, []), (3, []),
          (3, [])]"
    by (simp only: demo_images_ten fst_conv)
  have 2: "returned (async_camera_image demo_lib ?w demo_camera) = Inl AttributeError"
    by (simp only: r all_fetched_returned) simp
  have 3: "last_image (camera (async_camera_image demo_lib ?w demo_camera))
      = Some ''FFFFFFFFFF''"
    by (simp only: r all_fetched_camera) simp
  have il: "images_loop demo_lib
      [None, None, None, None, None, None, None, None, Some ''png'', Some ''trunc'']
      demo_camera []
     = (Inr [(3, []), (5, [])], demo_camera\<lparr>last_image := Some ''trunc''\<rparr>)"
    by (simp add: demo_lib_def)
  have an: "animation demo_lib [(3, []), (5, [])] = Inl OSError"
    by (simp add: animation_def enumerate_eq_zip demo_lib_def upt_rec)
  have rt: "async_camera_image demo_lib ?wt demo_camera =
      \<lparr>returned = Inl OSError, camera = demo_camera\<lparr>last_image := Some ''trunc''\<rparr>,
       states_after = states ?wt,
       fetched = timestamps_loop (63839664300000000 - minutes 50) 63839664300000000 []\<rparr>"
    unfolding cycle_eq [OF nowt demo_gate_open demo_gather_truncated] il by (simp add: an)
  have 4: "fst (images_loop demo_lib
        [None, None, None, None, None, None, None, None, Some ''png'', Some ''trunc'']
        demo_camera []) = Inr [(3, []), (5, [])]"
    by (simp only: il fst_conv)
  have 5: "returned (async_camera_image demo_lib ?wt demo_camera) = Inl OSError"
    by (simp only: rt) simp
  have 6: "last_image (camera (async_camera_image demo_lib ?wt demo_camera)) = Some ''trunc''"
    by (simp only: rt) simp
  from demo_gather_same [of demo_clock "''png''" Map.empty] 1 2 3 4 5 6
  show ?thesis by (intro conjI)
qed

section \<open>The cached metadata\<close>

lemma full_cycle_gate:
  assumes "ceil_dt (clock w) td = Inr now"
    and "last_image_time self = Some (now - td)" and "last_image self \<noteq> None"
  shows "full_cycle p w self = None"
  unfolding full_cycle_def using assms by simp

lemma full_cycle_eq:
  assumes now: "ceil_dt (clock w) td = Inr now"
    and ng: "\<not> (last_image_time self = Some (now - td) \<and> last_image self \<noteq> None)"
  shows "full_cycle p w self =
     (case gather (map (get_image p w) (timestamps_loop (now - minutes 50) now [])) of
        Inl e \<Rightarrow> None
      | Inr contents \<Rightarrow>
          (case images_loop p contents self [] of
             (Inl e, self1) \<Rightarrow> None
           | (Inr images, self1) \<Rightarrow>
               if length images = 10
               then (case animation p images of Inl e \<Rightarrow> None | Inr buff \<Rightarrow> Some (now - td))
               else None))"
proof -
  have "full_cycle p w self =
     (let timestamps = timestamps_loop (now - minutes 50) now [] in
            case gather (map (get_image p w) timestamps) of
              Inl e \<Rightarrow> None
            | Inr contents \<Rightarrow>
                (case images_loop p contents self [] of
                   (Inl e, self1) \<Rightarrow> None
                 | (Inr images, self1) \<Rightarrow>
                     if length images > 1
                     then
                       (case animation p images of
                          Inl e \<Rightarrow> None
                        | Inr buff \<Rightarrow>
                            if length images = length timestamps
                            then Some (last timestamps)
                            else None)
                     else None))"
    unfolding full_cycle_def by (simp only: now sum.case if_not_P [OF ng])
  then show ?thesis
    by (simp add: Let_def length_window last_window split: prod.split sum.split)
qed

lemma metadata_step:
  "case full_cycle p w self of
     Some t \<Rightarrow>
       last_image_time (camera (async_camera_image p w self)) = Some t
       \<and> last_image_time_pretty (camera (async_camera_image p w self)) = Some (isoformat p t)
       \<and> last_url (camera (async_camera_image p w self)) = Some (rain_map_url p t)
   | None \<Rightarrow>
       last_image_time (camera (async_camera_image p w self)) = last_image_time self
       \<and> last_image_time_pretty (camera (async_camera_image p w self)) =
           last_image_time_pretty self
       \<and> last_url (camera (async_camera_image p w self)) = last_url self"
proof (rule async_camera_image_cases [where p = p and w = w and self = self])
  fix now
  assume "ceil_dt (clock w) td = Inr now" "last_image_time self = Some (now - td)"
    "last_image self \<noteq> None"
    "async_camera_image p w self =
      \<lparr>returned = Inr (last_image self), camera = self, states_after = states w, fetched = []\<rparr>"
  then show ?thesis by (simp add: full_cycle_gate)
next
  fix now e
  assume a: "ceil_dt (clock w) td = Inr now"
    "\<not> (last_image_time self = Some (now - td) \<and> last_image self \<noteq> None)"
    and g: "gather (map (get_image p w) (timestamps_loop (now - minutes 50) now [])) = Inl e"
    and r: "async_camera_image p w self =
      \<lparr>returned = Inl e, camera = self, states_after = states w,
       fetched = timestamps_loop (now - minutes 50) now []\<rparr>"
  show ?thesis by (simp add: full_cycle_eq [OF a] g r)
next
  fix now contents e self1
  assume a: "ceil_dt (clock w) td = Inr now"
    "\<not> (last_image_time self = Some (now - td) \<and> last_image self \<noteq> None)"
    and g: "gather (map (get_image p w) (timestamps_loop (now - minutes 50) now [])) = Inr contents"
    and il: "images_loop p contents self [] = (Inl e, self1)"
    and r: "async_camera_image p w self =
      \<lparr>returned = Inl e, camera = self1, states_after = states w,
       fetched = timestamps_loop (now - minutes 50) now []\<rparr>"
  show ?thesis
    using images_loop_entity [OF il] by (simp add: full_cycle_eq [OF a] g il r)
next
  fix now contents images self1
  assume a: "ceil_dt (clock w) td = Inr now"
    "\<not> (last_image_time self = Some (now - td) \<and> last_image self \<noteq> None)"
    and g: "gather (map (get_image p w) (timestamps_loop (now - minutes 50) now [])) = Inr contents"
    and il: "images_loop p contents self [] = (Inr images, self1)"
    and n: "length images \<le> 1"
    and r: "async_camera_image p w self =
      \<lparr>returned = Inr (last_image self1), camera = self1, states_after = states w,
       fetched = timestamps_loop (now - minutes 50) now []\<rparr>"
  show ?thesis
    using images_loop_entity [OF il] n by (simp add: full_cycle_eq [OF a] g il r)
next
  fix now contents images self1 e
  assume a: "ceil_dt (clock w) td = Inr now"
    "\<not> (last_image_time self = Some (now - td) \<and> last_image self \<noteq> None)"
    and g: "gather (map (get_image p w) (timestamps_loop (now - minutes 50) now [])) = Inr contents"
    and il: "images_loop p contents self [] = (Inr images, self1)"
    and an: "animation p images = Inl e"
    and r: "async_camera_image p w self =
      \<lparr>returned = Inl e, camera = self1, states_after = states w,
       fetched = timestamps_loop (now - minutes 50) now []\<rparr>"
  show ?thesis
    using images_loop_entity [OF il] by (simp add: full_cycle_eq [OF a] g il r an)
next
  fix now contents images self1 buff
  assume a: "ceil_dt (clock w) td = Inr now"
    "\<not> (last_image_time self = Some (now - td) \<and> last_image self \<noteq> None)"
    and g: "gather (map (get_image p w) (timestamps_loop (now - minutes 50) now [])) = Inr contents"
    and il: "images_loop p contents self [] = (Inr images, self1)"
    and n: "1 < length images" "length images \<noteq> 10"
    and r: "async_camera_image p w self =
      \<lparr>returned = Inr (Some buff), camera = self1\<lparr>last_image := Some buff\<rparr>,
       states_after = states w, fetched = timestamps_loop (now - minutes 50) now []\<rparr>"
  show ?thesis
    using images_loop_entity [OF il] n by (simp add: full_cycle_eq [OF a] g il r)
next
  fix now contents images self1 buff
  assume a: "ceil_dt (clock w) td = Inr now"
    "\<not> (last_image_time self = Some (now - td) \<and> last_image self \<noteq> None)"
    and g: "gather (map (get_image p w) (timestamps_loop (now - minutes 50) now [])) = Inr contents"
    and il: "images_loop p contents self [] = (Inr images, self1)"
    and n: "length images = 10"
    and an: "animation p images = Inr buff"
    and r: "async_camera_image p w self =
      all_fetched p w (self1\<lparr>last_image := Some buff\<rparr>)
        (timestamps_loop (now - minutes 50) now [])"
  show ?thesis
    using n by (simp add: full_cycle_eq [OF a] g il an r all_fetched_camera last_window)
qed

lemma attributes_history:
  "extra_state_attributes (calls p ws self) =
     (case last_full_cycle p ws self of
        Some t \<Rightarrow> [''Updated at'' \<mapsto> Some (isoformat p t), ''URL'' \<mapsto> Some (rain_map_url p t)]
      | None \<Rightarrow> extra_state_attributes self)"
proof (induction ws arbitrary: self)
  case Nil
  show ?case by simp
next
  case (Cons w ws)
  show ?case
  proof (cases "last_full_cycle p ws (camera (async_camera_image p w self))")
    case (Some t)
    then show ?thesis using Cons.IH [of "camera (async_camera_image p w self)"] by simp
  next
    case None
    then have "extra_state_attributes (calls p (w # ws) self) =
        extra_state_attributes (camera (async_camera_image p w self))"
      using Cons.IH [of "camera (async_camera_image p w self)"] by simp
    also have "\<dots> = (case full_cycle p w self of
        Some t \<Rightarrow> [''Updated at'' \<mapsto> Some (isoformat p t), ''URL'' \<mapsto> Some (rain_map_url p t)]
      | None \<Rightarrow> extra_state_attributes self)"
      using metadata_step [of p w self]
      by (simp add: extra_state_attributes_def split: option.splits)
    finally show ?thesis using None by simp
  qed
qed

lemma demo_images_truncated:
  "images_loop demo_lib (map (\<lambda>t. Some ''trunc'')
      (timestamps_loop (63839664300000000 - minutes 50) 63839664300000000 [])) demo_camera [] =
   (Inr [(5, []), (5, []), (5, []), (5, []), (5, []), (5, []), (5, []), (5, []), (5, []),
         (5, [])],
    demo_camera\<lparr>last_image := Some ''trunc''\<rparr>)"
  by (simp only: demo_window) (simp add: demo_lib_def)

text \<open>
  C8, as the code has it. A call sets the timestamp of the last frame, its ISO string and
  its URL to those of the last bucket when it is a full cycle, and leaves all three as they
  were otherwise. A call is a full cycle exactly when it passes the gate, its fetches join,
  it opens as many images as it requested buckets, and drawing the bars and saving the
  animation succeed; the bucket is then \<open>now - td\<close>. The attributes are the ISO string and
  the URL of the camera, so after any sequence of calls on a new camera they are those of
  its most recent full cycle, and \<open>None\<close> when there was none.
\<close>

theorem metadata_commit:
  "(case full_cycle p w self of
      Some t \<Rightarrow>
        last_image_time (camera (async_camera_image p w self)) = Some t
        \<and> last_image_time_pretty (camera (async_camera_image p w self)) = Some (isoformat p t)
        \<and> last_url (camera (async_camera_image p w self)) = Some (rain_map_url p t)
    | None \<Rightarrow>
        last_image_time (camera (async_camera_image p w self)) = last_image_time self
        \<and> last_image_time_pretty (camera (async_camera_image p w self)) =
            last_image_time_pretty self
        \<and> last_url (camera (async_camera_image p w self)) = last_url self)
   \<and> (\<forall>now. ceil_dt (clock w) td = Inr now \<longrightarrow>
          full_cycle p w self =
            (if \<not> (last_image_time self = Some (now - td) \<and> last_image self \<noteq> None)
                \<and> (\<exists>contents images self1 buff.
                      gather (map (get_image p w) (timestamps_loop (now - minutes 50) now []))
                        = Inr contents
                      \<and> images_loop p contents self [] = (Inr images, self1)
                      \<and> length images = length (timestamps_loop (now - minutes 50) now [])
                      \<and> animation p images = Inr buff)
             then Some (now - td) else None))
   \<and> extra_state_attributes (camera (async_camera_image p w self)) =
        [''Updated at'' \<mapsto> last_image_time_pretty (camera (async_camera_image p w self)),
         ''URL'' \<mapsto> last_url (camera (async_camera_image p w self))]
   \<and> extra_state_attributes (calls p ws (init conf_name conf_prefix)) =
        (case last_full_cycle p ws (init conf_name conf_prefix) of
           Some t \<Rightarrow>
             [''Updated at'' \<mapsto> Some (isoformat p t), ''URL'' \<mapsto> Some (rain_map_url p t)]
         | None \<Rightarrow> [''Updated at'' \<mapsto> None, ''URL'' \<mapsto> None])"
proof -
  have B: "\<forall>now. ceil_dt (clock w) td = Inr now \<longrightarrow>
          full_cycle p w self =
            (if \<not> (last_image_time self = Some (now - td) \<and> last_image self \<noteq> None)
                \<and> (\<exists>contents images self1 buff.
                      gather (map (get_image p w) (timestamps_loop (now - minutes 50) now []))
                        = Inr contents
                      \<and> images_loop p contents self [] = (Inr images, self1)
                      \<and> length images = length (timestamps_loop (now - minutes 50) now [])
                      \<and> animation p images = Inr buff)
             then Some (now - td) else None)"
  proof (intro allI impI)
    fix now assume now: "ceil_dt (clock w) td = Inr now"
    let ?g = "gather (map (get_image p w) (timestamps_loop (now - minutes 50) now []))"
    show "full_cycle p w self =
            (if \<not> (last_image_time self = Some (now - td) \<and> last_image self \<noteq> None)
                \<and> (\<exists>contents images self1 buff.
                      ?g = Inr contents
                      \<and> images_loop p contents self [] = (Inr images, self1)
                      \<and> length images = length (timestamps_loop (now - minutes 50) now [])
                      \<and> animation p images = Inr buff)
             then Some (now - td) else None)"
    proof (cases "last_image_time self = Some (now - td) \<and> last_image self \<noteq> None")
      case True
      then show ?thesis using full_cycle_gate [OF now, of self p] by simp
    next
      case False
      note eq = full_cycle_eq [OF now False, of p]
      show ?thesis
      proof (cases ?g)
        case (Inl e)
        then show ?thesis by (simp add: eq)
      next
        case (Inr contents)
        obtain res self1 where il: "images_loop p contents self [] = (res, self1)"
          by (cases "images_loop p contents self []")
        show ?thesis
        proof (cases res)
          case (Inl e)
          with Inr il show ?thesis by (simp add: eq)
        next
          case images: (Inr images)
          show ?thesis
            using False Inr il images
            by (cases "animation p images") (simp_all add: eq length_window)
        qed
      qed
    qed
  qed
  have D: "extra_state_attributes (calls p ws (init conf_name conf_prefix)) =
        (case last_full_cycle p ws (init conf_name conf_prefix) of
           Some t \<Rightarrow>
             [''Updated at'' \<mapsto> Some (isoformat p t), ''URL'' \<mapsto> Some (rain_map_url p t)]
         | None \<Rightarrow> [''Updated at'' \<mapsto> None, ''URL'' \<mapsto> None])"
  proof -
    have "extra_state_attributes (init conf_name conf_prefix) =
        [''Updated at'' \<mapsto> None, ''URL'' \<mapsto> None]"
      by (simp add: extra_state_attributes_def init_def)
    then show ?thesis
      by (simp only: attributes_history [of p ws "init conf_name conf_prefix"])
  qed
  show ?thesis
    using metadata_step [of p w self] B D
    by (intro conjI) (simp_all add: extra_state_attributes_def)
qed

theorem metadata_commit_witness:
  "extra_state_attributes (calls demo_lib
     [\<lparr>clock = demo_clock, http_get = (\<lambda>url. Response 200 ''png''), states = Map.empty\<rparr>,
      \<lparr>clock = demo_clock + minutes 5,
       http_get = (\<lambda>url. if url = ''r/05.png'' then Response 404 [] else Response 200 ''png''),
       states = Map.empty\<rparr>] (init ''NEA'' ''nea'')) ''URL'' = Some (Some ''r/00.png'')
   \<and> last_image_time_pretty (camera (async_camera_image demo_lib
        \<lparr>clock = demo_clock, http_get = (\<lambda>url. Response 200 ''png''), states = Map.empty\<rparr>
        demo_camera)) = Some ''T00''"
proof -
  let ?w1 = "\<lparr>clock = demo_clock, http_get = (\<lambda>url. Response 200 ''png''),
              states = Map.empty\<rparr>"
  let ?w2 = "\<lparr>clock = demo_clock + minutes 5,
       http_get = (\<lambda>url. if url = ''r/05.png'' then Response 404 [] else Response 200 ''png''),
       states = Map.empty\<rparr>"
  have h: "last_full_cycle demo_lib [?w1, ?w2] (init ''NEA'' ''nea'') = Some 63839664000000000"
    by code_simp
  have now: "ceil_dt (clock ?w1) td = Inr 63839664300000000" using demo_now by simp
  have cycle: "\<not> (last_image_time demo_camera = Some (63839664300000000 - td)
        \<and> last_image demo_camera \<noteq> None)
      \<and> (\<exists>contents images self1 buff.
            gather (map (get_image demo_lib ?w1)
              (timestamps_loop (63839664300000000 - minutes 50) 63839664300000000 []))
              = Inr contents
            \<and> images_loop demo_lib contents demo_camera [] = (Inr images, self1)
            \<and> length images =
                length (timestamps_loop (63839664300000000 - minutes 50) 63839664300000000 [])
            \<and> animation demo_lib images = Inr buff)"
  proof (intro conjI exI)
    show "\<not> (last_image_time demo_camera = Some (63839664300000000 - td)
        \<and> last_image demo_camera \<noteq> None)"
      by (rule demo_gate_open)
    show "gather (map (get_image demo_lib ?w1)
        (timestamps_loop (63839664300000000 - minutes 50) 63839664300000000 []))
        = Inr (map (\<lambda>t. Some ''png'')
            (timestamps_loop (63839664300000000 - minutes 50) 63839664300000000 []))"
      by (rule demo_gather_same)
    show "images_loop demo_lib (map (\<lambda>t. Some ''png'')
        (timestamps_loop (63839664300000000 - minutes 50) 63839664300000000 [])) demo_camera []
      = (Inr [(3, []), (3, []), (3, []), (3, []), (3, []), (3, []), (3, []), (3, []), (3, []),
              (3, [])],
         demo_camera\<lparr>last_image := Some ''png''\<rparr>)"
      by (rule demo_images_ten)
    show "length [(3::nat, [] :: (rat \<times> rat \<times> rat \<times> rat) list), (3, []), (3, []), (3, []),
        (3, []), (3, []), (3, []), (3, []), (3, []), (3, [])] =
        length (timestamps_loop (63839664300000000 - minutes 50) 63839664300000000 [])"
      by (simp add: length_window)
    show "animation demo_lib
        [(3, []), (3, []), (3, []), (3, []), (3, []), (3, []), (3, []), (3, []), (3, []),
         (3, [])] = Inr ''FFFFFFFFFF''"
      by (rule demo_animation_ten)
  qed
  have u: "rain_map_url demo_lib 63839664000000000 = ''r/00.png''"
    and i: "isoformat demo_lib 63839664000000000 = ''T00''"
    by (simp_all add: rain_map_url_def demo_lib_def minute_stamp_def)
  note m = metadata_commit [of demo_lib ?w1 demo_camera "[?w1, ?w2]" "''NEA''" "''nea''"]
  from m [THEN conjunct2, THEN conjunct1, THEN spec, THEN mp, OF now]
  have f: "full_cycle demo_lib ?w1 demo_camera = Some 63839664000000000"
    by (simp only: cycle if_True) (simp add: td_def minutes_def)
  from m [THEN conjunct1]
  have 1: "last_image_time_pretty (camera (async_camera_image demo_lib ?w1 demo_camera)) =
      Some ''T00''"
    by (simp add: f i)
  from m [THEN conjunct2, THEN conjunct2, THEN conjunct2]
  have "extra_state_attributes (calls demo_lib [?w1, ?w2] (init ''NEA'' ''nea'')) =
      [''Updated at'' \<mapsto> Some ''T00'', ''URL'' \<mapsto> Some ''r/00.png'']"
    by (simp only: h option.case u i)
  then have 2: "extra_state_attributes (calls demo_lib [?w1, ?w2] (init ''NEA'' ''nea'')) ''URL''
      = Some (Some ''r/00.png'')"
    by simp
  from 2 1 show ?thesis by (rule conjI)
qed

text \<open>
  C8 as it was stated fails when drawing raises: all ten fetches return a truncated file,
  ten images are opened for ten requested buckets, the first draw raises, and neither the
  timestamp nor the URL is set.
\<close>

theorem metadata_commit_counterexample:
  "gather (map (get_image demo_lib
        \<lparr>clock = demo_clock, http_get = (\<lambda>url. Response 200 ''trunc''), states = Map.empty\<rparr>)
        (timestamps_loop (63839664300000000 - minutes 50) 63839664300000000 [])) =
     Inr (map (\<lambda>t. Some ''trunc'')
        (timestamps_loop (63839664300000000 - minutes 50) 63839664300000000 []))
   \<and> fst (images_loop demo_lib (map (\<lambda>t. Some ''trunc'')
        (timestamps_loop (63839664300000000 - minutes 50) 63839664300000000 []))
        demo_camera []) =
     Inr [(5, []), (5, []), (5, []), (5, []), (5, []), (5, []), (5, []), (5, []), (5, []),
          (5, [])]
   \<and> length (fetched (async_camera_image demo_lib
        \<lparr>clock = demo_clock, http_get = (\<lambda>url. Response 200 ''trunc''), states = Map.empty\<rparr>
        demo_camera)) = 10
   \<and> returned (async_camera_image demo_lib
        \<lparr>clock = demo_clock, http_get = (\<lambda>url. Response 200 ''trunc''), states = Map.empty\<rparr>
        demo_camera) = Inl OSError
   \<and> last_image_time (camera (async_camera_image demo_lib
        \<lparr>clock = demo_clock, http_get = (\<lambda>url. Response 200 ''trunc''), states = Map.empty\<rparr>
        demo_camera)) = None
   \<and> last_url (camera (async_camera_image demo_lib
        \<lparr>clock = demo_clock, http_get = (\<lambda>url. Response 200 ''trunc''), states = Map.empty\<rparr>
        demo_camera)) = None"
proof -
  let ?w = "\<lparr>clock = demo_clock, http_get = (\<lambda>url. Response 200 ''trunc''),
             states = Map.empty\<rparr>"
  have now: "ceil_dt (clock ?w) td = Inr 63839664300000000" using demo_now by simp
  have an: "animation demo_lib
      [(5, []), (5, []), (5, []), (5, []), (5, []), (5, []), (5, []), (5, []), (5, []), (5, [])]
      = Inl OSError"
    by (simp add: animation_def enumerate_eq_zip demo_lib_def upt_ten)
  have r: "async_camera_image demo_lib ?w demo_camera =
      \<lparr>returned = Inl OSError, camera = demo_camera\<lparr>last_image := Some ''trunc''\<rparr>,
       states_after = Map.empty,
       fetched = timestamps_loop (63839664300000000 - minutes 50) 63839664300000000 []\<rparr>"
    unfolding cycle_eq [OF now demo_gate_open demo_gather_same] demo_images_truncated
    by (simp add: an)
  have 1: "fst (images_loop demo_lib (map (\<lambda>t. Some ''trunc'')
        (timestamps_loop (63839664300000000 - minutes 50) 63839664300000000 []))
        demo_camera []) =
     Inr [(5, []), (5, []), (5, []), (5, []), (5, []), (5, []), (5, []), (5, []), (5, []),
          (5, [])]"
    by (simp only: demo_images_truncated fst_conv)
  have 2: "length (fetched (async_camera_image demo_lib ?w demo_camera)) = 10"
    by (simp only: r) (simp add: length_window)
  have 3: "returned (async_camera_image demo_lib ?w demo_camera) = Inl OSError"
    by (simp only: r) simp
  have 4: "last_image_time (camera (async_camera_image demo_lib ?w demo_camera)) = None"
    by (simp only: r) (simp add: demo_camera_def init_def)
  have 5: "last_url (camera (async_camera_image demo_lib ?w demo_camera)) = None"
    by (simp only: r) (simp add: demo_camera_def init_def)
  from demo_gather_same [of demo_clock "''trunc''" Map.empty] 1 2 3 4 5
  show ?thesis by (intro conjI)
qed

section \<open>Exceptions that leave the call\<close>





section \<open>The stored last image over the life of the camera\<close>

lemma last_image_kept_step:
  "last_image self \<noteq> None \<Longrightarrow> last_image (camera (async_camera_image p w self)) \<noteq> None"
  by (rule async_camera_image_cases [where p = p and w = w and self = self])
     (auto simp: all_fetched_camera dest: images_loop_keeps)

lemma got_bytes_stored:
  assumes "got_bytes p w self"
  shows "last_image (camera (async_camera_image p w self)) \<noteq> None"
proof (rule async_camera_image_cases [where p = p and w = w and self = self])
  fix now
  assume "async_camera_image p w self =
      \<lparr>returned = Inr (last_image self), camera = self, states_after = states w, fetched = []\<rparr>"
  with assms show ?thesis by (simp add: got_bytes_def)
next
  fix now e
  assume "gather (map (get_image p w) (timestamps_loop (now - minutes 50) now [])) = Inl e"
    "async_camera_image p w self =
      \<lparr>returned = Inl e, camera = self, states_after = states w,
       fetched = timestamps_loop (now - minutes 50) now []\<rparr>"
  with assms show ?thesis by (simp add: got_bytes_def)
next
  fix now contents e self1
  assume g: "gather (map (get_image p w) (timestamps_loop (now - minutes 50) now [])) = Inr contents"
    and il: "images_loop p contents self [] = (Inl e, self1)"
    and r: "async_camera_image p w self =
      \<lparr>returned = Inl e, camera = self1, states_after = states w,
       fetched = timestamps_loop (now - minutes 50) now []\<rparr>"
  from assms have "\<exists>c\<in>set contents. c \<noteq> None"
    by (simp add: got_bytes_def r g list_ex_iff)
  from images_loop_sets [OF il this] show ?thesis by (simp add: r)
next
  fix now contents images self1
  assume g: "gather (map (get_image p w) (timestamps_loop (now - minutes 50) now [])) = Inr contents"
    and il: "images_loop p contents self [] = (Inr images, self1)"
    and r: "async_camera_image p w self =
      \<lparr>returned = Inr (last_image self1), camera = self1, states_after = states w,
       fetched = timestamps_loop (now - minutes 50) now []\<rparr>"
  from assms have "\<exists>c\<in>set contents. c \<noteq> None"
    by (simp add: got_bytes_def r g list_ex_iff)
  from images_loop_sets [OF il this] show ?thesis by (simp add: r)
next
  fix now contents images self1 e
  assume g: "gather (map (get_image p w) (timestamps_loop (now - minutes 50) now [])) = Inr contents"
    and il: "images_loop p contents self [] = (Inr images, self1)"
    and r: "async_camera_image p w self =
      \<lparr>returned = Inl e, camera = self1, states_after = states w,
       fetched = timestamps_loop (now - minutes 50) now []\<rparr>"
  from assms have "\<exists>c\<in>set contents. c \<noteq> None"
    by (simp add: got_bytes_def r g list_ex_iff)
  from images_loop_sets [OF il this] show ?thesis by (simp add: r)
next
  fix now images self1 buff
  assume "async_camera_image p w self =
      \<lparr>returned = Inr (Some buff), camera = self1\<lparr>last_image := Some buff\<rparr>,
       states_after = states w, fetched = timestamps_loop (now - minutes 50) now []\<rparr>"
  then show ?thesis by simp
next
  fix now images self1 buff
  assume "async_camera_image p w self =
      all_fetched p w (self1\<lparr>last_image := Some buff\<rparr>)
        (timestamps_loop (now - minutes 50) now [])"
  then show ?thesis by (simp add: all_fetched_camera)
qed

lemma no_bytes_unchanged:
  assumes "\<not> got_bytes p w self"
  shows "camera (async_camera_image p w self) = self
     \<and> (joined p w self \<longrightarrow> returned (async_camera_image p w self) = Inr (last_image self))
     \<and> (\<not> joined p w self \<longrightarrow>
          (\<exists>e. returned (async_camera_image p w self) = Inl e \<and> \<not> is_Exception e))"
proof (rule async_camera_image_cases [where p = p and w = w and self = self])
  fix now
  assume "async_camera_image p w self =
      \<lparr>returned = Inr (last_image self), camera = self, states_after = states w, fetched = []\<rparr>"
  then show ?thesis by (simp add: joined_def)
next
  fix now e
  assume g: "gather (map (get_image p w) (timestamps_loop (now - minutes 50) now [])) = Inl e"
    and r: "async_camera_image p w self =
      \<lparr>returned = Inl e, camera = self, states_after = states w,
       fetched = timestamps_loop (now - minutes 50) now []\<rparr>"
  from gather_aborted [OF g] have "\<not> is_Exception e" by (rule conjunct1)
  then show ?thesis by (simp add: joined_def r g)
next
  fix now contents e self1
  assume g: "gather (map (get_image p w) (timestamps_loop (now - minutes 50) now [])) = Inr contents"
    and il: "images_loop p contents self [] = (Inl e, self1)"
    and r: "async_camera_image p w self =
      \<lparr>returned = Inl e, camera = self1, states_after = states w,
       fetched = timestamps_loop (now - minutes 50) now []\<rparr>"
  from assms have "\<forall>c\<in>set contents. c = None"
    by (simp add: got_bytes_def r g list_ex_iff)
  from images_loop_none [OF this, of p self "[]"] il show ?thesis by simp
next
  fix now contents images self1
  assume g: "gather (map (get_image p w) (timestamps_loop (now - minutes 50) now [])) = Inr contents"
    and il: "images_loop p contents self [] = (Inr images, self1)"
    and r: "async_camera_image p w self =
      \<lparr>returned = Inr (last_image self1), camera = self1, states_after = states w,
       fetched = timestamps_loop (now - minutes 50) now []\<rparr>"
  from assms have "\<forall>c\<in>set contents. c = None"
    by (simp add: got_bytes_def r g list_ex_iff)
  from images_loop_none [OF this, of p self "[]"] il show ?thesis
    by (simp add: r joined_def g)
next
  fix now contents images self1 e
  assume g: "gather (map (get_image p w) (timestamps_loop (now - minutes 50) now [])) = Inr contents"
    and il: "images_loop p contents self [] = (Inr images, self1)"
    and n: "1 < length images"
    and r: "async_camera_image p w self =
      \<lparr>returned = Inl e, camera = self1, states_after = states w,
       fetched = timestamps_loop (now - minutes 50) now []\<rparr>"
  from assms have "\<forall>c\<in>set contents. c = None"
    by (simp add: got_bytes_def r g list_ex_iff)
  from images_loop_none [OF this, of p self "[]"] il n show ?thesis by simp
next
  fix now contents images self1 buff
  assume g: "gather (map (get_image p w) (timestamps_loop (now - minutes 50) now [])) = Inr contents"
    and il: "images_loop p contents self [] = (Inr images, self1)"
    and n: "1 < length images"
    and r: "async_camera_image p w self =
      \<lparr>returned = Inr (Some buff), camera = self1\<lparr>last_image := Some buff\<rparr>,
       states_after = states w, fetched = timestamps_loop (now - minutes 50) now []\<rparr>"
  from assms have "\<forall>c\<in>set contents. c = None"
    by (simp add: got_bytes_def r g list_ex_iff)
  from images_loop_none [OF this, of p self "[]"] il n show ?thesis by simp
next
  fix now contents images self1 buff
  assume a: "ceil_dt (clock w) td = Inr now"
    "\<not> (last_image_time self = Some (now - td) \<and> last_image self \<noteq> None)"
    and g: "gather (map (get_image p w) (timestamps_loop (now - minutes 50) now [])) = Inr contents"
    and il: "images_loop p contents self [] = (Inr images, self1)"
    and n: "length images = 10"
  from assms have "\<forall>c\<in>set contents. c = None"
    by (simp add: got_bytes_def fetched_cycle [OF a] g list_ex_iff)
  from images_loop_none [OF this, of p self "[]"] il n show ?thesis by simp
qed

lemma last_image_step:
  "last_image (camera (async_camera_image p w self)) = None \<longleftrightarrow>
     last_image self = None \<and> \<not> got_bytes p w self"
proof
  assume n: "last_image (camera (async_camera_image p w self)) = None"
  have "last_image self = None" using last_image_kept_step [of self p w] n by blast
  moreover have "\<not> got_bytes p w self" using got_bytes_stored [of p w self] n by blast
  ultimately show "last_image self = None \<and> \<not> got_bytes p w self" by (rule conjI)
next
  assume a: "last_image self = None \<and> \<not> got_bytes p w self"
  then have "camera (async_camera_image p w self) = self"
    using no_bytes_unchanged [of p w self] by blast
  with a show "last_image (camera (async_camera_image p w self)) = None" by simp
qed

lemma last_image_history:
  "last_image (calls p ws self) = None \<longleftrightarrow> last_image self = None \<and> \<not> ever_got_bytes p ws self"
  by (induction ws arbitrary: self) (auto simp: last_image_step)

lemma ever_got_bytes_append:
  "ever_got_bytes p (ws @ [w]) self =
     (ever_got_bytes p ws self \<or> got_bytes p w (calls p ws self))"
  by (induction ws arbitrary: self) auto

lemma not_joined_raises:
  assumes "\<not> joined p w self"
  shows "camera (async_camera_image p w self) = self
     \<and> (\<exists>e. returned (async_camera_image p w self) = Inl e \<and> \<not> is_Exception e)"
proof -
  from assms have "\<not> got_bytes p w self"
    by (simp add: joined_def got_bytes_def split: sum.splits)
  from no_bytes_unchanged [OF this] assms show ?thesis by blast
qed

lemma demo_gather_cancelled:
  "gather (map (get_image demo_lib
      \<lparr>clock = c,
       http_get = (\<lambda>url. if url = ''r/15.png'' then Raises CancelledError
                         else Response 200 ''png''),
       states = st\<rparr>)
     (timestamps_loop (63839664300000000 - minutes 50) 63839664300000000 [])) =
   Inl CancelledError"
  using demo_urls by (simp add: demo_window get_image_eq)

text \<open>
  C10, as the code has it. A call never resets a stored last image to \<open>None\<close>, and a call
  whose fetches joined with a body among them leaves one stored. So after any sequence of
  calls on a new camera the stored last image is \<open>None\<close> exactly when no call got bytes; a
  call that returns, returns \<open>None\<close> exactly when no call so far got bytes, itself included;
  and a call whose fetches join returns \<open>None\<close> when none did. A call whose fetches do not
  join leaves the camera as it was and raises an exception that does not derive from
  \<^verbatim>\<open>Exception\<close>.
\<close>

theorem last_image_never_reset:
  "(last_image self \<noteq> None \<longrightarrow>
      last_image (camera (async_camera_image p w self)) \<noteq> None)
   \<and> (got_bytes p w self \<longrightarrow> last_image (camera (async_camera_image p w self)) \<noteq> None)
   \<and> (last_image (calls p ws (init conf_name conf_prefix)) = None \<longleftrightarrow>
        \<not> ever_got_bytes p ws (init conf_name conf_prefix))
   \<and> (\<forall>v. returned (async_camera_image p w (calls p ws (init conf_name conf_prefix))) = Inr v \<longrightarrow>
        (v = None \<longleftrightarrow> \<not> ever_got_bytes p (ws @ [w]) (init conf_name conf_prefix)))
   \<and> (\<not> ever_got_bytes p (ws @ [w]) (init conf_name conf_prefix)
        \<and> joined p w (calls p ws (init conf_name conf_prefix)) \<longrightarrow>
        returned (async_camera_image p w (calls p ws (init conf_name conf_prefix))) = Inr None)
   \<and> (\<not> joined p w self \<longrightarrow>
        camera (async_camera_image p w self) = self
        \<and> (\<exists>e. returned (async_camera_image p w self) = Inl e \<and> \<not> is_Exception e))"
proof -
  let ?i = "init conf_name conf_prefix"
  let ?s = "calls p ws ?i"
  have i: "last_image ?i = None" by (simp add: init_def)
  have 3: "last_image ?s = None \<longleftrightarrow> \<not> ever_got_bytes p ws ?i"
    by (simp add: last_image_history i)
  have app: "ever_got_bytes p (ws @ [w]) ?i = (ever_got_bytes p ws ?i \<or> got_bytes p w ?s)"
    by (rule ever_got_bytes_append)
  have 4: "\<forall>v. returned (async_camera_image p w ?s) = Inr v \<longrightarrow>
        (v = None \<longleftrightarrow> \<not> ever_got_bytes p (ws @ [w]) ?i)"
  proof (intro allI impI)
    fix v assume "returned (async_camera_image p w ?s) = Inr v"
    from returned_last_image [OF this]
    have v: "v = last_image (camera (async_camera_image p w ?s))" .
    have "last_image (camera (async_camera_image p w ?s)) = None \<longleftrightarrow>
        last_image ?s = None \<and> \<not> got_bytes p w ?s"
      by (rule last_image_step)
    with 3 app v show "v = None \<longleftrightarrow> \<not> ever_got_bytes p (ws @ [w]) ?i" by auto
  qed
  have 5: "\<not> ever_got_bytes p (ws @ [w]) ?i \<and> joined p w ?s \<longrightarrow>
        returned (async_camera_image p w ?s) = Inr None"
  proof
    assume a: "\<not> ever_got_bytes p (ws @ [w]) ?i \<and> joined p w ?s"
    with app have n: "\<not> ever_got_bytes p ws ?i" "\<not> got_bytes p w ?s" by auto
    from n(1) 3 have "last_image ?s = None" by auto
    with no_bytes_unchanged [OF n(2)] a
    show "returned (async_camera_image p w ?s) = Inr None" by auto
  qed
  have 6: "\<not> joined p w self \<longrightarrow>
        camera (async_camera_image p w self) = self
        \<and> (\<exists>e. returned (async_camera_image p w self) = Inl e \<and> \<not> is_Exception e)"
    using not_joined_raises [of p w self] by blast
  have 1: "last_image self \<noteq> None \<longrightarrow>
      last_image (camera (async_camera_image p w self)) \<noteq> None"
    using last_image_kept_step [of self p w] by blast
  have 2: "got_bytes p w self \<longrightarrow> last_image (camera (async_camera_image p w self)) \<noteq> None"
    using got_bytes_stored [of p w self] by blast
  from 1 2 3 4 5 6 show ?thesis by (intro conjI)
qed

theorem last_image_never_reset_witness:
  "returned (async_camera_image demo_lib
      \<lparr>clock = demo_clock, http_get = (\<lambda>url. Raises TimeoutException), states = Map.empty\<rparr>
      (calls demo_lib
        [\<lparr>clock = demo_clock, http_get = (\<lambda>url. Response 404 []), states = Map.empty\<rparr>]
        (init ''NEA'' ''nea''))) = Inr None
   \<and> last_image (calls demo_lib
        [\<lparr>clock = demo_clock,
          http_get = (\<lambda>url. if url = ''r/00.png'' then Response 200 ''png'' else Response 404 []),
          states = Map.empty\<rparr>,
         \<lparr>clock = demo_clock + minutes 5, http_get = (\<lambda>url. Raises TimeoutException),
          states = Map.empty\<rparr>]
        (init ''NEA'' ''nea'')) \<noteq> None
   \<and> camera (async_camera_image demo_lib
        \<lparr>clock = demo_clock,
         http_get = (\<lambda>url. if url = ''r/15.png'' then Raises CancelledError
                           else Response 200 ''png''),
         states = Map.empty\<rparr> demo_camera) = demo_camera"
proof -
  let ?w0 = "\<lparr>clock = demo_clock, http_get = (\<lambda>url. Raises TimeoutException),
              states = Map.empty\<rparr>"
  let ?w4 = "\<lparr>clock = demo_clock, http_get = (\<lambda>url. Response 404 []), states = Map.empty\<rparr>"
  let ?w1 = "\<lparr>clock = demo_clock,
          http_get = (\<lambda>url. if url = ''r/00.png'' then Response 200 ''png'' else Response 404 []),
          states = Map.empty\<rparr>"
  let ?w2 = "\<lparr>clock = demo_clock + minutes 5, http_get = (\<lambda>url. Raises TimeoutException),
          states = Map.empty\<rparr>"
  let ?wc = "\<lparr>clock = demo_clock,
         http_get = (\<lambda>url. if url = ''r/15.png'' then Raises CancelledError
                           else Response 200 ''png''),
         states = Map.empty\<rparr>"
  have never: "\<not> ever_got_bytes demo_lib ([?w4] @ [?w0]) (init ''NEA'' ''nea'')"
    by code_simp
  have j: "joined demo_lib ?w0 (calls demo_lib [?w4] (init ''NEA'' ''nea''))"
    by code_simp
  have once: "ever_got_bytes demo_lib [?w1, ?w2] (init ''NEA'' ''nea'')"
    by code_simp
  have nj: "\<not> joined demo_lib ?wc demo_camera"
    by code_simp
  note t = last_image_never_reset [of _ demo_lib _ _ "''NEA''" "''nea''"]
  from never j have nj0: "\<not> ever_got_bytes demo_lib ([?w4] @ [?w0]) (init ''NEA'' ''nea'')
      \<and> joined demo_lib ?w0 (calls demo_lib [?w4] (init ''NEA'' ''nea''))"
    by (rule conjI)
  from t [of demo_camera ?w0 "[?w4]", THEN conjunct2, THEN conjunct2, THEN conjunct2,
      THEN conjunct2, THEN conjunct1, THEN mp, OF nj0]
  have 1: "returned (async_camera_image demo_lib ?w0 (calls demo_lib [?w4] (init ''NEA'' ''nea'')))
      = Inr None" .
  from t [of demo_camera ?w0 "[?w1, ?w2]", THEN conjunct2, THEN conjunct2, THEN conjunct1] once
  have 2: "last_image (calls demo_lib [?w1, ?w2] (init ''NEA'' ''nea'')) \<noteq> None"
    by blast
  from t [of demo_camera ?wc "[]", THEN conjunct2, THEN conjunct2, THEN conjunct2,
      THEN conjunct2, THEN conjunct2, THEN mp, OF nj, THEN conjunct1]
  have 3: "camera (async_camera_image demo_lib ?wc demo_camera) = demo_camera" .
  from 1 2 3 show ?thesis by (intro conjI)
qed

text \<open>
  C10 as it was stated fails under cancellation: the fetch of the last bucket returns
  \<open>''png''\<close>, the fetch of the first one raises CancelledError, the call raises and stores
  nothing, and the next call, whose fetches all time out, returns \<open>None\<close> although a fetch
  had returned bytes.
\<close>

theorem last_image_never_reset_counterexample:
  "get_image demo_lib
      \<lparr>clock = demo_clock,
       http_get = (\<lambda>url. if url = ''r/15.png'' then Raises CancelledError
                         else Response 200 ''png''),
       states = Map.empty\<rparr> 63839664000000000 = Inr (Some ''png'')
   \<and> 63839664000000000 \<in> set (fetched (async_camera_image demo_lib
      \<lparr>clock = demo_clock,
       http_get = (\<lambda>url. if url = ''r/15.png'' then Raises CancelledError
                         else Response 200 ''png''),
       states = Map.empty\<rparr> (init ''NEA'' ''nea'')))
   \<and> returned (async_camera_image demo_lib
      \<lparr>clock = demo_clock,
       http_get = (\<lambda>url. if url = ''r/15.png'' then Raises CancelledError
                         else Response 200 ''png''),
       states = Map.empty\<rparr> (init ''NEA'' ''nea'')) = Inl CancelledError
   \<and> last_image (calls demo_lib
      [\<lparr>clock = demo_clock,
        http_get = (\<lambda>url. if url = ''r/15.png'' then Raises CancelledError
                          else Response 200 ''png''),
        states = Map.empty\<rparr>] (init ''NEA'' ''nea'')) = None
   \<and> returned (async_camera_image demo_lib
      \<lparr>clock = demo_clock, http_get = (\<lambda>url. Raises TimeoutException), states = Map.empty\<rparr>
      (calls demo_lib
        [\<lparr>clock = demo_clock,
          http_get = (\<lambda>url. if url = ''r/15.png'' then Raises CancelledError
                            else Response 200 ''png''),
          states = Map.empty\<rparr>] (init ''NEA'' ''nea''))) = Inr None"
proof -
  let ?wc = "\<lparr>clock = demo_clock,
       http_get = (\<lambda>url. if url = ''r/15.png'' then Raises CancelledError
                         else Response 200 ''png''),
       states = Map.empty\<rparr>"
  let ?w0 = "\<lparr>clock = demo_clock, http_get = (\<lambda>url. Raises TimeoutException),
              states = Map.empty\<rparr>"
  let ?ts = "timestamps_loop (63839664300000000 - minutes 50) 63839664300000000 []"
  have nowc: "ceil_dt (clock ?wc) td = Inr 63839664300000000" using demo_now by simp
  have now0: "ceil_dt (clock ?w0) td = Inr 63839664300000000" using demo_now by simp
  have ng: "\<not> (last_image_time (init ''NEA'' ''nea'') = Some (63839664300000000 - td)
      \<and> last_image (init ''NEA'' ''nea'') \<noteq> None)"
    by (simp add: init_def)
  have r: "async_camera_image demo_lib ?wc (init ''NEA'' ''nea'') =
      \<lparr>returned = Inl CancelledError, camera = init ''NEA'' ''nea'', states_after = states ?wc,
       fetched = ?ts\<rparr>"
    by (rule abort_eq [OF nowc ng demo_gather_cancelled])
  have c: "calls demo_lib [?wc] (init ''NEA'' ''nea'') = init ''NEA'' ''nea''"
    by (simp only: calls.simps r) simp
  have il: "images_loop demo_lib (map (\<lambda>t. None) ?ts) (init ''NEA'' ''nea'') [] =
      (Inr [], init ''NEA'' ''nea'')"
    by (simp add: images_loop_none)
  have r0: "async_camera_image demo_lib ?w0 (init ''NEA'' ''nea'') =
      \<lparr>returned = Inr None, camera = init ''NEA'' ''nea'', states_after = states ?w0,
       fetched = ?ts\<rparr>"
    unfolding cycle_eq [OF now0 ng demo_gather_none] il by (simp add: init_def)
  have 1: "get_image demo_lib ?wc 63839664000000000 = Inr (Some ''png'')"
    by (simp add: get_image_eq content_def rain_map_url_def demo_lib_def minute_stamp_def)
  have 2: "63839664000000000 \<in> set (fetched (async_camera_image demo_lib ?wc
      (init ''NEA'' ''nea'')))"
    by (simp only: r) (simp add: demo_window)
  have 3: "returned (async_camera_image demo_lib ?wc (init ''NEA'' ''nea'')) = Inl CancelledError"
    by (simp only: r) simp
  have 4: "last_image (calls demo_lib [?wc] (init ''NEA'' ''nea'')) = None"
    by (simp only: c) (simp add: init_def)
  have 5: "returned (async_camera_image demo_lib ?w0 (calls demo_lib [?wc]
      (init ''NEA'' ''nea''))) = Inr None"
    by (simp only: c r0) simp
  from 1 2 3 4 5 show ?thesis by (intro conjI)
qed

end
